theory Spec2Isabelle
  imports Main "HOL-Library.Code_Target_Nat"
begin

text \<open>
  A model of the three request handlers of the service: \<^verbatim>\<open>validatePost\<close> and
  \<^verbatim>\<open>validateData\<close> (controllers/validate.controller.js) and \<^verbatim>\<open>identifyCar\<close>
  (the identify controller). Each handler is a function from the request and from what
  the outside answers (media store, file system, completion service, persistence
  service) to the response sent and the trace of the calls made. The functions of
  JavaScript that the handlers use (\<^verbatim>\<open>JSON.parse\<close>, \<^verbatim>\<open>String.prototype.match\<close> on
  the two regular expressions, \<^verbatim>\<open>replace\<close>, \<^verbatim>\<open>trim\<close>, \<^verbatim>\<open>split\<close>) are modelled
  from their specification in ECMAScript.
\<close>

section \<open>JavaScript strings\<close>

text \<open>
  A JavaScript string is a sequence of UTF-16 code units. A code unit is modelled by its
  number, so that the escapes of JSON (\<^verbatim>\<open>\u20AC\<close>) and the non-ASCII white space that
  \<^verbatim>\<open>trim\<close> and \<^verbatim>\<open>\s\<close> remove are all representable. \<open>js\<close> turns an ASCII literal
  of the theory into such a string.
\<close>

type_synonym jsstring = "nat list"

definition js :: "string \<Rightarrow> jsstring" where
  "js s = map of_char s"

abbreviation cu :: "char \<Rightarrow> nat" where
  "cu c \<equiv> of_char c"

text \<open>
  White space and line terminators of ECMAScript: the code units that
  \<^verbatim>\<open>String.prototype.trim\<close> removes and that \<^verbatim>\<open>\s\<close> matches
  (TAB, LF, VT, FF, CR, SP, NBSP, U+1680, U+2000 to U+200A, U+2028, U+2029, U+202F,
  U+205F, U+3000, U+FEFF).
\<close>

definition is_space :: "nat \<Rightarrow> bool" where
  "is_space c \<longleftrightarrow>
     c = 9 \<or> c = 10 \<or> c = 11 \<or> c = 12 \<or> c = 13 \<or> c = 32 \<or> c = 160 \<or> c = 5760 \<or>
     (8192 \<le> c \<and> c \<le> 8202) \<or> c = 8232 \<or> c = 8233 \<or> c = 8239 \<or> c = 8287 \<or>
     c = 12288 \<or> c = 65279"

definition trim :: "jsstring \<Rightarrow> jsstring" where
  "trim s = rev (dropWhile is_space (rev (dropWhile is_space s)))"

text \<open>
  \<^verbatim>\<open>toLowerCase\<close> on the ASCII letters. The Unicode mappings beyond ASCII are left
  out: no other code point lowercases to a letter of the words \<^verbatim>\<open>success\<close>,
  \<^verbatim>\<open>true\<close> or \<^verbatim>\<open>false\<close>, the only words looked up in a lowercased text.
\<close>

definition toLowerCase :: "jsstring \<Rightarrow> jsstring" where
  "toLowerCase s = map (\<lambda>c. if 65 \<le> c \<and> c \<le> 90 then c + 32 else c) s"

definition starts_with :: "jsstring \<Rightarrow> jsstring \<Rightarrow> bool" where
  "starts_with p s \<longleftrightarrow> take (length p) s = p"

text \<open>\<^verbatim>\<open>s.includes(p)\<close>: \<open>p\<close> occurs in \<open>s\<close> at some position.\<close>

fun includes_js :: "jsstring \<Rightarrow> jsstring \<Rightarrow> bool" where
  "includes_js [] p = (p = [])"
| "includes_js (c # cs) p = (starts_with p (c # cs) \<or> includes_js cs p)"

text \<open>
  \<^verbatim>\<open>s.split(',')\<close>: the pieces between the commas, in order; a string with no comma is
  one piece, and so is the empty string.
\<close>

fun split_comma :: "jsstring \<Rightarrow> jsstring list" where
  "split_comma [] = [[]]"
| "split_comma (c # cs) =
     (if c = cu CHR '','' then [] # split_comma cs
      else (case split_comma cs of
              [] \<Rightarrow> [[c]]
            | t # ts \<Rightarrow> (c # t) # ts))"

text \<open>\<^verbatim>\<open>ts.join(',')\<close>, the inverse of the split.\<close>

fun join_comma :: "jsstring list \<Rightarrow> jsstring" where
  "join_comma [] = []"
| "join_comma [t] = t"
| "join_comma (t # ts) = t @ cu CHR '','' # join_comma ts"

section \<open>JSON values and \<^verbatim>\<open>JSON.parse\<close>\<close>

text \<open>
  The value that \<^verbatim>\<open>JSON.parse\<close> builds. A number keeps its decimal value exactly, as
  mantissa and exponent (\<open>JNumber m e\<close> is \<open>m * 10 ^ e\<close>); the rounding to a double is
  not modelled. An object keeps its members in the order of the text, duplicates
  included; reading a property takes the last member of that name, as the object built by
  \<^verbatim>\<open>JSON.parse\<close> does.
\<close>

datatype json =
    JNull
  | JBool bool
  | JNumber int int
  | JString jsstring
  | JArray "json list"
  | JObject "(jsstring \<times> json) list"

datatype error =
    SyntaxError
  | TypeError
  | Error jsstring

datatype token =
    TLBrace | TRBrace | TLBracket | TRBracket | TColon | TComma
  | TString jsstring | TNumber int int | TTrue | TFalse | TNull

definition is_json_ws :: "nat \<Rightarrow> bool" where
  "is_json_ws c \<longleftrightarrow> c = 32 \<or> c = 9 \<or> c = 10 \<or> c = 13"

definition is_digit :: "nat \<Rightarrow> bool" where
  "is_digit c \<longleftrightarrow> 48 \<le> c \<and> c \<le> 57"

definition hex_val :: "nat \<Rightarrow> nat option" where
  "hex_val c =
     (if 48 \<le> c \<and> c \<le> 57 then Some (c - 48)
      else if 97 \<le> c \<and> c \<le> 102 then Some (c - 87)
      else if 65 \<le> c \<and> c \<le> 70 then Some (c - 55)
      else None)"

fun hex4 :: "jsstring \<Rightarrow> nat option" where
  "hex4 [a, b, c, d] =
     (case (hex_val a, hex_val b, hex_val c, hex_val d) of
        (Some x, Some y, Some z, Some w) \<Rightarrow> Some (((x * 16 + y) * 16 + z) * 16 + w)
      | _ \<Rightarrow> None)"
| "hex4 _ = None"

definition unescape :: "nat \<Rightarrow> nat option" where
  "unescape e =
     (if e = 34 then Some 34
      else if e = 92 then Some 92
      else if e = 47 then Some 47
      else if e = cu CHR ''b'' then Some 8
      else if e = cu CHR ''f'' then Some 12
      else if e = cu CHR ''n'' then Some 10
      else if e = cu CHR ''r'' then Some 13
      else if e = cu CHR ''t'' then Some 9
      else None)"

text \<open>
  The body of a string literal, after its opening quote: the decoded string and the
  number of code units read, closing quote included. A control character (below U+0020),
  an unknown escape and a missing closing quote are syntax errors.
\<close>

fun lex_string :: "jsstring \<Rightarrow> (jsstring \<times> nat) option" where
  "lex_string [] = None"
| "lex_string (c # cs) =
     (if c = 34 then Some ([], 1)
      else if c = 92 then
        (case cs of
           [] \<Rightarrow> None
         | e # cs' \<Rightarrow>
             if e = cu CHR ''u'' then
               (case hex4 (take 4 cs') of
                  None \<Rightarrow> None
                | Some u \<Rightarrow> map_option (\<lambda>(s, n). (u # s, n + 6)) (lex_string (drop 4 cs')))
             else
               (case unescape e of
                  None \<Rightarrow> None
                | Some u \<Rightarrow> map_option (\<lambda>(s, n). (u # s, n + 2)) (lex_string cs')))
      else if c < 32 then None
      else map_option (\<lambda>(s, n). (c # s, n + 1)) (lex_string cs))"

definition digits_val :: "jsstring \<Rightarrow> nat" where
  "digits_val ds = foldl (\<lambda>a d. 10 * a + (d - 48)) 0 ds"

text \<open>
  A number literal at the head of the text:
  \<^verbatim>\<open>-? (0 | [1-9][0-9]*) (. [0-9]+)? ([eE] [+-]? [0-9]+)?\<close>.
  The result is mantissa, exponent and the number of code units read.
\<close>

definition lex_number :: "jsstring \<Rightarrow> (int \<times> int \<times> nat) option" where
  "lex_number s =
     (let neg = starts_with [45] s;
          s1 = (if neg then drop 1 s else s);
          ip = takeWhile is_digit s1;
          s2 = drop (length ip) s1;
          has_frac = starts_with [46] s2;
          fp = (if has_frac then takeWhile is_digit (drop 1 s2) else []);
          s3 = (if has_frac then drop (1 + length fp) s2 else s2);
          has_exp = (starts_with [101] s3 \<or> starts_with [69] s3);
          s4 = (if has_exp then drop 1 s3 else s3);
          eneg = (has_exp \<and> starts_with [45] s4);
          s5 = (if has_exp \<and> (starts_with [45] s4 \<or> starts_with [43] s4) then drop 1 s4 else s4);
          ep = (if has_exp then takeWhile is_digit s5 else []);
          s6 = drop (length ep) s5
      in if ip = [] \<or> (starts_with [48] ip \<and> 1 < length ip) \<or>
            (has_frac \<and> fp = []) \<or> (has_exp \<and> ep = [])
         then None
         else Some ((if neg then - 1 else 1) * int (digits_val (ip @ fp)),
                    (if eneg then - int (digits_val ep) else int (digits_val ep)) - int (length fp),
                    length s - length s6))"

fun lex :: "jsstring \<Rightarrow> token list option" where
  "lex [] = Some []"
| "lex (c # cs) =
     (if is_json_ws c then lex cs
      else if c = cu CHR ''{'' then map_option (Cons TLBrace) (lex cs)
      else if c = cu CHR ''}'' then map_option (Cons TRBrace) (lex cs)
      else if c = cu CHR ''['' then map_option (Cons TLBracket) (lex cs)
      else if c = cu CHR '']'' then map_option (Cons TRBracket) (lex cs)
      else if c = cu CHR '':'' then map_option (Cons TColon) (lex cs)
      else if c = cu CHR '','' then map_option (Cons TComma) (lex cs)
      else if c = 34 then
        (case lex_string cs of
           None \<Rightarrow> None
         | Some (s, n) \<Rightarrow> map_option (Cons (TString s)) (lex (drop n cs)))
      else if c = 45 \<or> is_digit c then
        (case lex_number (c # cs) of
           None \<Rightarrow> None
         | Some (m, e, n) \<Rightarrow> map_option (Cons (TNumber m e)) (lex (drop (n - 1) cs)))
      else if starts_with (js ''true'') (c # cs) then map_option (Cons TTrue) (lex (drop 3 cs))
      else if starts_with (js ''false'') (c # cs) then map_option (Cons TFalse) (lex (drop 4 cs))
      else if starts_with (js ''null'') (c # cs) then map_option (Cons TNull) (lex (drop 3 cs))
      else None)"

text \<open>
  The grammar of JSON over the tokens, as a pushdown automaton: the stack holds the
  arrays and objects that are open, each with what it has collected so far (latest
  first) and, for an object, the name waiting for its value. \<open>parse_value\<close> expects a
  value; \<open>parse_after\<close> has just completed the value \<open>v\<close>.
\<close>

datatype frame =
    InArray "json list"
  | InObject "(jsstring \<times> json) list" jsstring

fun parse_value :: "frame list \<Rightarrow> token list \<Rightarrow> json option"
  and parse_after :: "json \<Rightarrow> frame list \<Rightarrow> token list \<Rightarrow> json option" where
  "parse_value stk [] = None"
| "parse_value stk (t # ts) =
     (case t of
        TLBracket \<Rightarrow>
          (case ts of
             TRBracket # ts' \<Rightarrow> parse_after (JArray []) stk ts'
           | _ \<Rightarrow> parse_value (InArray [] # stk) ts)
      | TLBrace \<Rightarrow>
          (case ts of
             TRBrace # ts' \<Rightarrow> parse_after (JObject []) stk ts'
           | TString k # TColon # ts' \<Rightarrow> parse_value (InObject [] k # stk) ts'
           | _ \<Rightarrow> None)
      | TString s \<Rightarrow> parse_after (JString s) stk ts
      | TNumber m e \<Rightarrow> parse_after (JNumber m e) stk ts
      | TTrue \<Rightarrow> parse_after (JBool True) stk ts
      | TFalse \<Rightarrow> parse_after (JBool False) stk ts
      | TNull \<Rightarrow> parse_after JNull stk ts
      | _ \<Rightarrow> None)"
| "parse_after v [] ts = (if ts = [] then Some v else None)"
| "parse_after v (InArray acc # stk) ts =
     (case ts of
        TComma # ts' \<Rightarrow> parse_value (InArray (v # acc) # stk) ts'
      | TRBracket # ts' \<Rightarrow> parse_after (JArray (rev (v # acc))) stk ts'
      | _ \<Rightarrow> None)"
| "parse_after v (InObject acc k # stk) ts =
     (case ts of
        TComma # TString k' # TColon # ts' \<Rightarrow> parse_value (InObject ((k, v) # acc) k' # stk) ts'
      | TRBrace # ts' \<Rightarrow> parse_after (JObject (rev ((k, v) # acc))) stk ts'
      | _ \<Rightarrow> None)"

text \<open>\<^verbatim>\<open>JSON.parse(text)\<close>: the value, or the SyntaxError it throws.\<close>

definition JSON_parse :: "jsstring \<Rightarrow> error + json" where
  "JSON_parse text =
     (case lex text of
        None \<Rightarrow> Inl SyntaxError
      | Some ts \<Rightarrow>
          (case parse_value [] ts of
             None \<Rightarrow> Inl SyntaxError
           | Some v \<Rightarrow> Inr v))"

section \<open>JavaScript values: truthiness and property access\<close>

text \<open>
  A value that may be \<^verbatim>\<open>undefined\<close> is a \<open>json option\<close>. A number is falsy when it is
  zero as a double, that is when its decimal value is at most \<open>2 ^ - 1075\<close> in magnitude.
\<close>

definition number_is_zero :: "int \<Rightarrow> int \<Rightarrow> bool" where
  "number_is_zero m e \<longleftrightarrow> m = 0 \<or> (e < 0 \<and> \<bar>m\<bar> * 2 ^ 1075 \<le> 10 ^ nat (- e))"

fun truthy :: "json option \<Rightarrow> bool" where
  "truthy None = False"
| "truthy (Some JNull) = False"
| "truthy (Some (JBool b)) = b"
| "truthy (Some (JNumber m e)) = (\<not> number_is_zero m e)"
| "truthy (Some (JString s)) = (s \<noteq> [])"
| "truthy (Some (JArray xs)) = True"
| "truthy (Some (JObject ms)) = True"

text \<open>
  \<^verbatim>\<open>v.k\<close> for a property name that no prototype defines (\<^verbatim>\<open>success\<close> and \<^verbatim>\<open>info\<close>
  here): a TypeError on \<^verbatim>\<open>null\<close>, the last member of that name on an object,
  \<^verbatim>\<open>undefined\<close> on anything else.
\<close>

fun get_prop :: "json \<Rightarrow> jsstring \<Rightarrow> error + json option" where
  "get_prop JNull k = Inl TypeError"
| "get_prop (JObject ms) k = Inr (map_of (rev ms) k)"
| "get_prop v k = Inr None"

section \<open>Brace matching\<close>

text \<open>
  Both regular expressions of the source have the shape \<^verbatim>\<open>\{ C* \}\<close>, for a character
  class \<open>C\<close>. \<open>match_rest\<close> matches \<^verbatim>\<open>C* \}\<close> at the head of the text the way the
  backtracking matcher does: the star first takes the character and goes on; when that
  fails, it stops here, and the character must be the closing brace.
  \<open>regex_match\<close> is \<^verbatim>\<open>text.match(/\{C*\}/)\<close>: the match at the leftmost position that
  has one, or \<open>None\<close> for \<^verbatim>\<open>null\<close>.
\<close>

definition LBRACE :: nat where
  "LBRACE = cu CHR ''{''"

definition RBRACE :: nat where
  "RBRACE = cu CHR ''}''"

definition BACKTICK :: nat where
  "BACKTICK = cu CHR 0x60"

fun match_rest :: "(nat \<Rightarrow> bool) \<Rightarrow> jsstring \<Rightarrow> jsstring option" where
  "match_rest C [] = None"
| "match_rest C (c # cs) =
     (case (if C c then match_rest C cs else None) of
        Some m \<Rightarrow> Some (c # m)
      | None \<Rightarrow> if c = RBRACE then Some [c] else None)"

fun regex_match :: "(nat \<Rightarrow> bool) \<Rightarrow> jsstring \<Rightarrow> jsstring option" where
  "regex_match C [] = None"
| "regex_match C (c # cs) =
     (case (if c = LBRACE then match_rest C cs else None) of
        Some m \<Rightarrow> Some (c # m)
      | None \<Rightarrow> regex_match C cs)"

text \<open>\<^verbatim>\<open>/\{[^}]*\}/\<close>, in validateData.\<close>

definition narrow_match :: "jsstring \<Rightarrow> jsstring option" where
  "narrow_match text = regex_match (\<lambda>c. c \<noteq> RBRACE) text"

text \<open>\<^verbatim>\<open>/\{[\s\S]*\}/\<close>, in validatePost and identifyCar.\<close>

definition greedy_match :: "jsstring \<Rightarrow> jsstring option" where
  "greedy_match text = regex_match (\<lambda>c. True) text"

section \<open>The extractors\<close>

text \<open>
  \<^verbatim>\<open>text.replace(/<fence>\s*/g, '')\<close>: every occurrence of the fence, with the white
  space that follows it, is removed, scanning from the left.
\<close>

function strip_fence :: "jsstring \<Rightarrow> jsstring \<Rightarrow> jsstring" where
  "strip_fence fence [] = []"
| "strip_fence fence (c # cs) =
     (if starts_with fence (c # cs)
      then strip_fence fence (dropWhile is_space (drop (length fence - 1) cs))
      else c # strip_fence fence cs)"
  by pat_completeness auto
termination
proof (relation "measure (\<lambda>(fence, s). length s)")
  fix fence :: jsstring and c :: nat and cs :: jsstring
  have "length (dropWhile is_space (drop (length fence - 1) cs)) \<le> length (drop (length fence - 1) cs)"
    by (rule length_dropWhile_le)
  then show "((fence, dropWhile is_space (drop (length fence - 1) cs)), (fence, c # cs))
      \<in> measure (\<lambda>(fence, s). length s)"
    by simp
qed simp_all

text \<open>The first three statements of \<^verbatim>\<open>extractAndParseJSON\<close>: fences, backticks, trim.\<close>

definition clean :: "jsstring \<Rightarrow> jsstring" where
  "clean text =
     trim (filter (\<lambda>c. c \<noteq> BACKTICK)
       (strip_fence (js ''```'') (strip_fence (js ''```json'') text)))"


definition success_object :: "bool \<Rightarrow> json" where
  "success_object b = JObject [(js ''success'', JBool b)]"

definition msg_no_json :: jsstring where
  "msg_no_json = js ''Aucun JSON valide trouv'' @ [233]"

text \<open>\<^verbatim>\<open>extractAndParseJSON\<close> of validateData (validate.controller.js, lines 241 to 270).\<close>

definition extractAndParseJSON :: "jsstring \<Rightarrow> error + json" where
  "extractAndParseJSON text =
     (let cleaned = clean text in
      case JSON_parse cleaned of
        Inr v \<Rightarrow> Inr v
      | Inl _ \<Rightarrow>
          (case narrow_match cleaned of
             Some jsonMatch \<Rightarrow> JSON_parse jsonMatch
           | None \<Rightarrow>
               if includes_js (toLowerCase cleaned) (js ''success'') \<and>
                  includes_js (toLowerCase cleaned) (js ''true'')
               then Inr (success_object True)
               else if includes_js (toLowerCase cleaned) (js ''success'') \<and>
                  includes_js (toLowerCase cleaned) (js ''false'')
               then Inr (success_object False)
               else Inl (Error msg_no_json)))"

definition msg_invalid_reply :: jsstring where
  "msg_invalid_reply = js ''R'' @ [233] @ js ''ponse GPT invalide''"

text \<open>The parsing of the reply in validatePost (validate.controller.js, lines 120 to 129).\<close>

definition validatePost_extract :: "jsstring \<Rightarrow> error + json" where
  "validatePost_extract result =
     (case JSON_parse result of
        Inr v \<Rightarrow> Inr v
      | Inl _ \<Rightarrow>
          (case greedy_match result of
             Some jsonMatch \<Rightarrow> JSON_parse jsonMatch
           | None \<Rightarrow> Inl (Error msg_invalid_reply)))"

section \<open>Requests, responses and the outside world\<close>

record upload_file =
  path :: jsstring
  originalname :: jsstring

record response =
  status :: nat
  body :: json

text \<open>
  What a handler does to the outside, in order: an upload to the media store, the call
  to the completion service, the call to the persistence service, the deletion of a
  temporary file (\<^verbatim>\<open>fs.unlinkSync\<close>; one that throws is caught and logged, which the
  model does not tell apart).
\<close>

datatype event =
    Upload jsstring
  | Complete
  | Persist
  | Unlink jsstring

text \<open>
  What the outside answers during one request: each external call either throws
  (rejects) with an error or gives its result. The reply of the completion service is
  the text of its first choice. The persistence service answers with its \<^verbatim>\<open>ok\<close> flag
  and the outcome of reading its body as JSON. The messages of the built-in errors are
  the engine's.
\<close>

record env =
  upload :: "jsstring \<Rightarrow> error + jsstring"
  readFileSync :: "jsstring \<Rightarrow> error + jsstring"
  complete :: "error + jsstring"
  fetch :: "error + (bool \<times> (error + json))"
  syntax_message :: jsstring
  type_message :: jsstring

fun message :: "env \<Rightarrow> error \<Rightarrow> jsstring" where
  "message w (Error m) = m"
| "message w SyntaxError = syntax_message w"
| "message w TypeError = type_message w"

text \<open>
  A stretch of a handler: the events it caused, and the value it computed or the error
  it threw.
\<close>

type_synonym 'a comp = "(error + 'a) \<times> event list"

definition ret :: "'a \<Rightarrow> 'a comp" where
  "ret x = (Inr x, [])"

definition emit :: "event list \<Rightarrow> unit comp" where
  "emit evs = (Inr (), evs)"

definition lift :: "error + 'a \<Rightarrow> 'a comp" where
  "lift r = (r, [])"

definition bind :: "'a comp \<Rightarrow> ('a \<Rightarrow> 'b comp) \<Rightarrow> 'b comp" where
  "bind m f =
     (case m of
        (Inl e, evs) \<Rightarrow> (Inl e, evs)
      | (Inr x, evs) \<Rightarrow> (case f x of (r, evs') \<Rightarrow> (r, evs @ evs')))"

section \<open>validatePost\<close>

record post_request =
  brand :: "json option"
  model :: "json option"
  description :: "json option"
  tags :: "json option"
  files :: "upload_file list option"

text \<open>
  The parsing of a string-valued \<^verbatim>\<open>tags\<close> (validate.controller.js, lines 12 to 18):
  \<^verbatim>\<open>JSON.parse\<close>, and in its \<^verbatim>\<open>catch\<close> the split on commas with each piece trimmed.
\<close>

definition parse_tags :: "jsstring \<Rightarrow> error + json" where
  "parse_tags s =
     (case JSON_parse s of
        Inr v \<Rightarrow> Inr v
      | Inl err \<Rightarrow> Inr (JArray (map (\<lambda>t. JString (trim t)) (split_comma s))))"

text \<open>The \<^verbatim>\<open>if (typeof tags === 'string')\<close> around it: any other value is left as it is.\<close>

definition normalise_tags :: "json option \<Rightarrow> error + json option" where
  "normalise_tags t =
     (case t of
        Some (JString s) \<Rightarrow> map_sum id Some (parse_tags s)
      | _ \<Rightarrow> Inr t)"

text \<open>
  The uploads of \<^verbatim>\<open>Promise.all\<close>: every upload is started; a file is read once its
  upload is done. The error reported is that of the first file that fails, in the order
  of the files.
\<close>

fun upload_all :: "env \<Rightarrow> upload_file list \<Rightarrow> error + jsstring list" where
  "upload_all w [] = Inr []"
| "upload_all w (f # fs) =
     (case upload w (path f) of
        Inl e \<Rightarrow> Inl e
      | Inr url \<Rightarrow>
          (case readFileSync w (path f) of
             Inl e \<Rightarrow> Inl e
           | Inr base64 \<Rightarrow>
               (case upload_all w fs of
                  Inl e \<Rightarrow> Inl e
                | Inr urls \<Rightarrow> Inr (url # urls))))"

text \<open>
  The prompt calls \<^verbatim>\<open>description.replace\<close>, a TypeError unless the description is a
  string (as \<^verbatim>\<open>images.map\<close> is one when there is no list of files). The text of the prompt is not modelled: the reply is whatever the completion
  service answers.
\<close>

fun build_prompt :: "json option \<Rightarrow> error + unit" where
  "build_prompt (Some (JString d)) = Inr ()"
| "build_prompt _ = Inl TypeError"

definition msg_missing_fields :: jsstring where
  "msg_missing_fields = js ''Champs requis manquants ou images non fournies.''"

definition msg_persist_failed :: jsstring where
  "msg_persist_failed =
     js ''Validation r'' @ [233] @ js ''ussie mais '' @ [233] @ js ''chec de l'enregistrement''"

definition msg_post_created :: jsstring where
  "msg_post_created = js ''Post valid'' @ [233] @ js '' et cr'' @ [233, 233]"

definition msg_server_error :: jsstring where
  "msg_server_error = js ''Erreur serveur''"

text \<open>\<^verbatim>\<open>a || b\<close>.\<close>

definition js_or :: "json option \<Rightarrow> json \<Rightarrow> json" where
  "js_or a b = (case a of Some v \<Rightarrow> if truthy a then v else b | None \<Rightarrow> b)"

text \<open>The \<^verbatim>\<open>try\<close> block of validatePost (lines 36 to 169).\<close>

definition validatePost_try :: "env \<Rightarrow> post_request \<Rightarrow> response comp" where
  "validatePost_try w req =
     bind (lift (case files req of None \<Rightarrow> Inl TypeError | Some images \<Rightarrow> Inr images)) (\<lambda>images.
     bind (emit (map (\<lambda>f. Upload (path f)) images)) (\<lambda>_.
     bind (lift (upload_all w images)) (\<lambda>uploadedImages.
     bind (lift (build_prompt (description req))) (\<lambda>_.
     bind (emit [Complete]) (\<lambda>_.
     bind (lift (complete w)) (\<lambda>result.
     bind (lift (validatePost_extract result)) (\<lambda>parsed.
     bind (lift (get_prop parsed (js ''success''))) (\<lambda>success.
       if \<not> truthy success then ret \<lparr>status = 400, body = parsed\<rparr>
       else
         bind (emit [Persist]) (\<lambda>_.
         bind (lift (fetch w)) (\<lambda>bddResponse.
         bind (lift (snd bddResponse)) (\<lambda>bddResult.
           if \<not> fst bddResponse then
             ret \<lparr>status = 500,
                  body = JObject [(js ''success'', JBool False),
                                  (js ''error'', JString msg_persist_failed),
                                  (js ''details'', bddResult)]\<rparr>
           else
             bind (lift (get_prop parsed (js ''info''))) (\<lambda>info.
               ret \<lparr>status = 201,
                    body = JObject [(js ''success'', JBool True),
                                    (js ''info'', js_or info (JString msg_post_created)),
                                    (js ''post'', bddResult)]\<rparr>))))))))))))"

text \<open>
  validatePost (lines 9 to 188): the tags, the check of the required fields, then the
  \<^verbatim>\<open>try\<close> block with its \<^verbatim>\<open>catch\<close> and its \<^verbatim>\<open>finally\<close>. The result is the response
  sent and the events caused, or the error with which the handler itself throws.
\<close>

definition validatePost :: "env \<Rightarrow> post_request \<Rightarrow> error + (response \<times> event list)" where
  "validatePost w req =
     (case normalise_tags (tags req) of
        Inl e \<Rightarrow> Inl e
      | Inr tags' \<Rightarrow>
          if \<not> truthy (brand req) \<or> \<not> truthy (model req) \<or> \<not> truthy (description req) \<or>
             \<not> truthy tags' \<or>
             (case files req of None \<Rightarrow> True | Some images \<Rightarrow> length images < 1)
          then Inr (\<lparr>status = 400,
                     body = JObject [(js ''success'', JBool False),
                                     (js ''error'', JString msg_missing_fields)]\<rparr>, [])
          else
            (case validatePost_try w req of
               (r, evs) \<Rightarrow>
                 Inr (case r of
                        Inr resp \<Rightarrow> resp
                      | Inl err \<Rightarrow>
                          \<lparr>status = 500,
                           body = JObject [(js ''success'', JBool False),
                                           (js ''error'', JString msg_server_error),
                                           (js ''message'', JString (message w err))]\<rparr>,
                      evs @ (case files req of
                               None \<Rightarrow> []
                             | Some images \<Rightarrow> map (\<lambda>f. Unlink (path f)) images))))"

section \<open>validateData\<close>

definition msg_no_data :: jsstring where
  "msg_no_data = js ''Aucune donn'' @ [233] @ js ''e fournie.''"

definition msg_validation_error :: jsstring where
  "msg_validation_error = js ''Erreur de validation - r'' @ [233] @ js ''ponse GPT invalide''"

definition msg_inappropriate :: jsstring where
  "msg_inappropriate = js ''Contenu inappropri'' @ [233] @ js '' d'' @ [233] @ js ''tect'' @ [233]"

definition msg_data_valid :: jsstring where
  "msg_data_valid =
     js ''Donn'' @ [233] @ js ''es valid'' @ [233] @ js ''es avec succ'' @ [232] @ js ''s''"

text \<open>The outer \<^verbatim>\<open>try\<close> block of validateData (lines 199 to 294).\<close>

definition validateData_try :: "env \<Rightarrow> response comp" where
  "validateData_try w =
     bind (emit [Complete]) (\<lambda>_.
     bind (lift (complete w)) (\<lambda>content.
       case extractAndParseJSON (trim content) of
         Inl parseError \<Rightarrow>
           ret \<lparr>status = 500,
                body = JObject [(js ''success'', JBool False),
                                (js ''error'', JString msg_validation_error),
                                (js ''details'', JString (message w parseError))]\<rparr>
       | Inr parsed \<Rightarrow>
           bind (lift (get_prop parsed (js ''success''))) (\<lambda>success.
             if \<not> truthy success then
               ret \<lparr>status = 200,
                    body = JObject [(js ''success'', JBool False),
                                    (js ''error'', JString msg_inappropriate)]\<rparr>
             else
               ret \<lparr>status = 200,
                    body = JObject [(js ''success'', JBool True),
                                    (js ''message'', JString msg_data_valid)]\<rparr>)))"

text \<open>validateData (lines 190 to 303); the argument is \<^verbatim>\<open>req.body\<close>.\<close>

definition validateData :: "env \<Rightarrow> json option \<Rightarrow> response \<times> event list" where
  "validateData w reqbody =
     (if \<not> truthy reqbody then
        (\<lparr>status = 400,
          body = JObject [(js ''success'', JBool False), (js ''error'', JString msg_no_data)]\<rparr>, [])
      else
        (case validateData_try w of
           (r, evs) \<Rightarrow>
             (case r of
                Inr resp \<Rightarrow> resp
              | Inl err \<Rightarrow>
                  \<lparr>status = 500,
                   body = JObject [(js ''success'', JBool False),
                                   (js ''error'', JString msg_server_error),
                                   (js ''message'', JString (message w err))]\<rparr>,
              evs)))"

section \<open>identifyCar\<close>

definition msg_no_image :: jsstring where
  "msg_no_image = js ''Aucune image n'a '' @ [233] @ js ''t'' @ [233] @ js '' fournie.''"

definition msg_invalid_format :: jsstring where
  "msg_invalid_format = js ''Format de r'' @ [233] @ js ''ponse invalide de l'API''"

definition msg_unexpected_format :: jsstring where
  "msg_unexpected_format = js ''Format de r'' @ [233] @ js ''ponse inattendu''"

definition msg_untreatable :: jsstring where
  "msg_untreatable = js ''Erreur serveur ou image non traitable.''"

text \<open>The parsing of the reply in identifyCar (lines 48 to 74), which answers at once.\<close>

definition identify_reply :: "jsstring \<Rightarrow> response" where
  "identify_reply result =
     (case JSON_parse result of
        Inr parsed \<Rightarrow> \<lparr>status = 200, body = parsed\<rparr>
      | Inl parseError \<Rightarrow>
          (case greedy_match result of
             Some jsonMatch \<Rightarrow>
               (case JSON_parse jsonMatch of
                  Inr extractedJson \<Rightarrow> \<lparr>status = 200, body = extractedJson\<rparr>
                | Inl extractError \<Rightarrow>
                    \<lparr>status = 500,
                     body = JObject [(js ''success'', JBool False),
                                     (js ''error'', JString msg_invalid_format),
                                     (js ''rawResponse'', JString result)]\<rparr>)
           | None \<Rightarrow>
               \<lparr>status = 500,
                body = JObject [(js ''success'', JBool False),
                                (js ''error'', JString msg_unexpected_format),
                                (js ''rawResponse'', JString result)]\<rparr>))"

text \<open>
  identifyCar (lines 8 to 98); the argument is \<^verbatim>\<open>req.file\<close>. The file is deleted at
  the end of the \<^verbatim>\<open>try\<close> block, or in the \<^verbatim>\<open>catch\<close> when something has thrown
  before.
\<close>

definition identifyCar :: "env \<Rightarrow> upload_file option \<Rightarrow> response \<times> event list" where
  "identifyCar w reqfile =
     (case reqfile of
        None \<Rightarrow>
          (\<lparr>status = 400,
            body = JObject [(js ''success'', JBool False), (js ''error'', JString msg_no_image)]\<rparr>, [])
      | Some f \<Rightarrow>
          if path f = [] then
            (\<lparr>status = 400,
              body = JObject [(js ''success'', JBool False), (js ''error'', JString msg_no_image)]\<rparr>, [])
          else
            (case bind (lift (readFileSync w (path f))) (\<lambda>base64Image.
                  bind (emit [Complete]) (\<lambda>_.
                  bind (lift (complete w)) (\<lambda>result.
                    ret (identify_reply result)))) of
               (Inr resp, evs) \<Rightarrow> (resp, evs @ [Unlink (path f)])
             | (Inl err, evs) \<Rightarrow>
                 (\<lparr>status = 500,
                   body = JObject [(js ''success'', JBool False),
                                   (js ''error'', JString msg_untreatable),
                                   (js ''message'', JString (message w err))]\<rparr>,
                  evs @ [Unlink (path f)])))"

section \<open>Sample requests\<close>

text \<open>
  The request and the mocks of tests/validate.test.js: two uploaded files, a store and a
  file system that succeed, a completion service that answers \<open>reply\<close>, a persistence
  service that answers with the flag \<open>ok\<close>.
\<close>

definition mockFiles :: "upload_file list" where
  "mockFiles =
     [\<lparr>path = js ''/tmp/upload1.jpg'', originalname = js ''car1.jpg''\<rparr>,
      \<lparr>path = js ''/tmp/upload2.jpg'', originalname = js ''car2.jpg''\<rparr>]"

definition validPostData :: post_request where
  "validPostData =
     \<lparr>brand = Some (JString (js ''Toyota'')),
      model = Some (JString (js ''Corolla'')),
      description = Some (JString (js ''Voiture en excellent etat'')),
      tags = Some (JArray [JString (js ''berline''), JString (js ''fiable'')]),
      files = Some mockFiles\<rparr>"

definition mockWorld :: "jsstring \<Rightarrow> bool \<Rightarrow> env" where
  "mockWorld reply ok =
     \<lparr>upload = (\<lambda>p. Inr (js ''http://img.com/img.jpg'')),
      readFileSync = (\<lambda>p. Inr (js ''aW1nZGF0YQ=='')),
      complete = Inr reply,
      fetch = Inr (ok, Inr (JObject [(js ''id'', JNumber 1 0)])),
      syntax_message = js ''Unexpected token'',
      type_message = js ''Cannot read properties of null''\<rparr>"

section \<open>Auxiliary facts\<close>

subsection \<open>The tags and the try block of validatePost\<close>

lemma parse_tags_Inr: "\<exists>v. parse_tags s = Inr v"
  by (simp add: parse_tags_def split: sum.splits)

lemma normalise_tags_Inr: "\<exists>t'. normalise_tags t = Inr t'"
proof (cases t)
  case None
  then show ?thesis by (simp add: normalise_tags_def)
next
  case (Some v)
  show ?thesis
  proof (cases v)
    case (JString s)
    obtain x where "parse_tags s = Inr x" using parse_tags_Inr by blast
    with Some JString show ?thesis by (simp add: normalise_tags_def)
  qed (simp_all add: Some normalise_tags_def)
qed

lemma validatePost_try_after_extraction:
  assumes "files req = Some images" "upload_all w images = Inr urls"
    "description req = Some (JString d)" "complete w = Inr result"
    "validatePost_extract result = Inr parsed" "get_prop parsed (js ''success'') = Inr s"
  shows "validatePost_try w req =
    (if \<not> truthy s then (Inr \<lparr>status = 400, body = parsed\<rparr>, map (\<lambda>f. Upload (path f)) images @ [Complete])
     else bind (Inr (), map (\<lambda>f. Upload (path f)) images @ [Complete, Persist]) (\<lambda>_.
         bind (lift (fetch w)) (\<lambda>bddResponse.
         bind (lift (snd bddResponse)) (\<lambda>bddResult.
           if \<not> fst bddResponse then
             ret \<lparr>status = 500,
                  body = JObject [(js ''success'', JBool False),
                                  (js ''error'', JString msg_persist_failed),
                                  (js ''details'', bddResult)]\<rparr>
           else
             bind (lift (get_prop parsed (js ''info''))) (\<lambda>info.
               ret \<lparr>status = 201,
                    body = JObject [(js ''success'', JBool True),
                                    (js ''info'', js_or info (JString msg_post_created)),
                                    (js ''post'', bddResult)]\<rparr>)))))"
  using assms by (simp add: validatePost_try_def bind_def lift_def emit_def ret_def split: prod.splits sum.splits)

lemma get_prop_total: "get_prop v k = Inr s \<Longrightarrow> \<exists>i. get_prop v k' = Inr i"
  by (cases v) auto

subsection \<open>The two brace matches\<close>

lemma match_rest_narrow:
  "match_rest (\<lambda>c. c \<noteq> RBRACE) s =
     (if RBRACE \<in> set s then Some (takeWhile (\<lambda>c. c \<noteq> RBRACE) s @ [RBRACE]) else None)"
  by (induction s) auto

lemma match_rest_greedy:
  "match_rest (\<lambda>c. True) s =
     (if RBRACE \<in> set s then Some (rev (dropWhile (\<lambda>c. c \<noteq> RBRACE) (rev s))) else None)"
proof (induction s)
  case Nil
  then show ?case by simp
next
  case (Cons c cs)
  show ?case
  proof (cases "RBRACE \<in> set cs")
    case True
    then have "dropWhile (\<lambda>c. c \<noteq> RBRACE) (rev cs @ [c]) = dropWhile (\<lambda>c. c \<noteq> RBRACE) (rev cs) @ [c]"
      by (intro dropWhile_append1[of RBRACE]) auto
    with True Cons show ?thesis by simp
  next
    case False
    then have "dropWhile (\<lambda>c. c \<noteq> RBRACE) (rev cs @ [c]) = dropWhile (\<lambda>c. c \<noteq> RBRACE) [c]"
      by (intro dropWhile_append2) auto
    with False Cons show ?thesis by (cases "c = RBRACE") simp_all
  qed
qed

lemma regex_match_first:
  assumes "\<And>s. match_rest C s \<noteq> None \<longleftrightarrow> RBRACE \<in> set s"
  shows "regex_match C s =
     (case dropWhile (\<lambda>c. c \<noteq> LBRACE) s of
        [] \<Rightarrow> None
      | c # rest \<Rightarrow> map_option (Cons LBRACE) (match_rest C rest))"
proof (induction s)
  case Nil
  then show ?case by simp
next
  case (Cons c cs)
  show ?case
  proof (cases "c = LBRACE")
    case False
    with Cons show ?thesis by simp
  next
    case True
    show ?thesis
    proof (cases "match_rest C cs")
      case (Some m)
      with True show ?thesis by simp
    next
      case None
      then have no: "RBRACE \<notin> set cs" using assms[of cs] by simp
      have "match_rest C rest = None" if "dropWhile (\<lambda>c. c \<noteq> LBRACE) cs = c' # rest" for c' rest
      proof -
        have "set rest \<subseteq> set cs"
          using set_dropWhileD[of _ "\<lambda>c. c \<noteq> LBRACE" cs] that by auto
        with no have "RBRACE \<notin> set rest" by blast
        then show ?thesis using assms[of rest] by simp
      qed
      then have "regex_match C cs = None"
        using Cons.IH by (simp split: list.splits)
      with None True show ?thesis by simp
    qed
  qed
qed

lemma narrow_match_eq:
  "narrow_match s =
     (case dropWhile (\<lambda>c. c \<noteq> LBRACE) s of
        [] \<Rightarrow> None
      | c # rest \<Rightarrow>
          if RBRACE \<in> set rest
          then Some (LBRACE # takeWhile (\<lambda>c. c \<noteq> RBRACE) rest @ [RBRACE])
          else None)"
proof -
  have "match_rest (\<lambda>c. c \<noteq> RBRACE) s \<noteq> None \<longleftrightarrow> RBRACE \<in> set s" for s
    by (simp add: match_rest_narrow)
  then have "regex_match (\<lambda>c. c \<noteq> RBRACE) s =
     (case dropWhile (\<lambda>c. c \<noteq> LBRACE) s of
        [] \<Rightarrow> None
      | c # rest \<Rightarrow> map_option (Cons LBRACE) (match_rest (\<lambda>c. c \<noteq> RBRACE) rest))"
    by (rule regex_match_first)
  then show ?thesis
    unfolding narrow_match_def
    by (cases "dropWhile (\<lambda>c. c \<noteq> LBRACE) s") (simp_all add: match_rest_narrow del: dropWhile_eq_Nil_conv)
qed

lemma greedy_match_eq:
  "greedy_match s =
     (case dropWhile (\<lambda>c. c \<noteq> LBRACE) s of
        [] \<Rightarrow> None
      | c # rest \<Rightarrow>
          if RBRACE \<in> set rest
          then Some (LBRACE # rev (dropWhile (\<lambda>c. c \<noteq> RBRACE) (rev rest)))
          else None)"
proof -
  have "match_rest (\<lambda>c. True) s \<noteq> None \<longleftrightarrow> RBRACE \<in> set s" for s
    by (simp add: match_rest_greedy)
  then have "regex_match (\<lambda>c. True) s =
     (case dropWhile (\<lambda>c. c \<noteq> LBRACE) s of
        [] \<Rightarrow> None
      | c # rest \<Rightarrow> map_option (Cons LBRACE) (match_rest (\<lambda>c. True) rest))"
    by (rule regex_match_first)
  then show ?thesis
    unfolding greedy_match_def
    by (cases "dropWhile (\<lambda>c. c \<noteq> LBRACE) s") (simp_all add: match_rest_greedy del: dropWhile_eq_Nil_conv)
qed

lemma dropWhile_first_brace:
  "LBRACE \<notin> set pre \<Longrightarrow>
   dropWhile (\<lambda>c. c \<noteq> LBRACE) (pre @ LBRACE # rest) = LBRACE # rest"
  by (induction pre) auto

lemma narrow_match_intro:
  assumes "LBRACE \<notin> set pre" "RBRACE \<notin> set inner"
  shows "narrow_match (pre @ LBRACE # inner @ RBRACE # post) = Some (LBRACE # inner @ [RBRACE])"
proof -
  have "takeWhile (\<lambda>c. c \<noteq> RBRACE) (inner @ RBRACE # post) = inner"
    using assms(2) by (induction inner) auto
  then show ?thesis
    using assms(1) by (simp add: narrow_match_eq dropWhile_first_brace)
qed

lemma dropWhile_last_brace:
  "RBRACE \<notin> set post \<Longrightarrow>
   rev (dropWhile (\<lambda>c. c \<noteq> RBRACE) (rev (inner @ RBRACE # post))) = inner @ [RBRACE]"
proof -
  assume a: "RBRACE \<notin> set post"
  have "dropWhile (\<lambda>c. c \<noteq> RBRACE) (rev post @ RBRACE # rev inner) =
      dropWhile (\<lambda>c. c \<noteq> RBRACE) (RBRACE # rev inner)"
    by (rule dropWhile_append2) (use a in auto)
  then show ?thesis by simp
qed

lemma greedy_match_intro:
  assumes "LBRACE \<notin> set pre" "RBRACE \<notin> set post"
  shows "greedy_match (pre @ LBRACE # inner @ RBRACE # post) = Some (LBRACE # inner @ [RBRACE])"
proof -
  have "greedy_match (pre @ LBRACE # inner @ RBRACE # post) =
      Some (LBRACE # rev (dropWhile (\<lambda>c. c \<noteq> RBRACE) (rev (inner @ RBRACE # post))))"
    using assms(1) by (simp add: greedy_match_eq dropWhile_first_brace)
  then show ?thesis
    using dropWhile_last_brace[OF assms(2)] by simp
qed

lemma first_brace_split:
  assumes "dropWhile (\<lambda>c. c \<noteq> LBRACE) s = c # rest"
  shows "\<exists>pre. s = pre @ LBRACE # rest \<and> LBRACE \<notin> set pre"
proof -
  have "c = LBRACE" using hd_dropWhile[of "\<lambda>c. c \<noteq> LBRACE" s] assms by auto
  then have "s = takeWhile (\<lambda>c. c \<noteq> LBRACE) s @ LBRACE # rest"
    using takeWhile_dropWhile_id[of "\<lambda>c. c \<noteq> LBRACE" s] assms by simp
  moreover have "LBRACE \<notin> set (takeWhile (\<lambda>c. c \<noteq> LBRACE) s)"
    using set_takeWhileD by fastforce
  ultimately show ?thesis by blast
qed

lemma narrow_match_elim:
  assumes "narrow_match s = Some m"
  shows "\<exists>pre inner post. s = pre @ LBRACE # inner @ RBRACE # post \<and>
     LBRACE \<notin> set pre \<and> RBRACE \<notin> set inner \<and> m = LBRACE # inner @ [RBRACE]"
proof -
  obtain c rest where d: "dropWhile (\<lambda>c. c \<noteq> LBRACE) s = c # rest"
    using assms by (auto simp: narrow_match_eq split: list.splits)
  from assms d have r: "RBRACE \<in> set rest"
    and m: "m = LBRACE # takeWhile (\<lambda>c. c \<noteq> RBRACE) rest @ [RBRACE]"
    by (auto simp: narrow_match_eq split: if_splits)
  obtain inner post where sp: "rest = inner @ RBRACE # post" "RBRACE \<notin> set inner"
    using split_list_first[OF r] by blast
  have t: "takeWhile (\<lambda>c. c \<noteq> RBRACE) rest = inner"
    using sp by (induction inner arbitrary: rest) auto
  obtain pre where "s = pre @ LBRACE # rest" "LBRACE \<notin> set pre"
    using first_brace_split[OF d] by blast
  with m t sp show ?thesis by blast
qed

lemma greedy_match_elim:
  assumes "greedy_match s = Some m"
  shows "\<exists>pre inner post. s = pre @ LBRACE # inner @ RBRACE # post \<and>
     LBRACE \<notin> set pre \<and> RBRACE \<notin> set post \<and> m = LBRACE # inner @ [RBRACE]"
proof -
  obtain c rest where d: "dropWhile (\<lambda>c. c \<noteq> LBRACE) s = c # rest"
    using assms by (auto simp: greedy_match_eq split: list.splits)
  from assms d have r: "RBRACE \<in> set rest"
    and m: "m = LBRACE # rev (dropWhile (\<lambda>c. c \<noteq> RBRACE) (rev rest))"
    by (auto simp: greedy_match_eq split: if_splits)
  obtain inner post where sp: "rest = inner @ RBRACE # post" "RBRACE \<notin> set post"
    using split_list_last[OF r] by blast
  have t: "rev (dropWhile (\<lambda>c. c \<noteq> RBRACE) (rev rest)) = inner @ [RBRACE]"
    using sp dropWhile_last_brace by blast
  obtain pre where "s = pre @ LBRACE # rest" "LBRACE \<notin> set pre"
    using first_brace_split[OF d] by blast
  with m t sp show ?thesis by blast
qed

lemma narrow_match_None:
  "narrow_match s = None \<longleftrightarrow> \<not> (\<exists>pre inner post. s = pre @ LBRACE # inner @ RBRACE # post)"
proof
  assume n: "narrow_match s = None"
  show "\<not> (\<exists>pre inner post. s = pre @ LBRACE # inner @ RBRACE # post)"
  proof
    assume "\<exists>pre inner post. s = pre @ LBRACE # inner @ RBRACE # post"
    then obtain pre inner post where s: "s = pre @ LBRACE # inner @ RBRACE # post" by blast
    have "LBRACE \<in> set s" using s by simp
    then obtain p r where pr: "s = p @ LBRACE # r" "LBRACE \<notin> set p"
      using split_list_first by fast
    have d: "dropWhile (\<lambda>c. c \<noteq> LBRACE) s = LBRACE # r"
      using pr by (simp add: dropWhile_first_brace)
    have "RBRACE \<notin> set r" using n d by (simp add: narrow_match_eq split: if_splits)
    have "length p \<le> length pre"
    proof (rule ccontr)
      assume "\<not> length p \<le> length pre"
      then have "length pre < length p" by simp
      then have "p ! length pre = s ! length pre" using pr(1) by (simp add: nth_append)
      also have "\<dots> = LBRACE" using s by (simp add: nth_append)
      finally have "LBRACE \<in> set p" using \<open>length pre < length p\<close> nth_mem by metis
      with pr(2) show False by simp
    qed
    then have "RBRACE \<in> set r"
    proof -
      have "drop (Suc (length p)) s = r" using pr(1) by simp
      moreover have "RBRACE \<in> set (drop (Suc (length pre)) s)" using s by simp
      moreover have "set (drop (Suc (length pre)) s) \<subseteq> set (drop (Suc (length p)) s)"
        using \<open>length p \<le> length pre\<close> by (simp add: set_drop_subset_set_drop)
      ultimately show ?thesis by blast
    qed
    with \<open>RBRACE \<notin> set r\<close> show False by simp
  qed
next
  assume "\<not> (\<exists>pre inner post. s = pre @ LBRACE # inner @ RBRACE # post)"
  then show "narrow_match s = None"
    using narrow_match_elim[of s] by (cases "narrow_match s") blast+
qed


section \<open>Properties of the handlers\<close>

text \<open>
  C9. A submission to validatePost with a required field missing (\<^verbatim>\<open>brand\<close>,
  \<^verbatim>\<open>model\<close> or \<^verbatim>\<open>description\<close> undefined, null or empty; \<^verbatim>\<open>tags\<close> undefined or
  null) or with no list of files or an empty one is answered at once with status 400,
  and nothing has been called: no upload, no completion, no persistence. validateData answers a missing
  or null body with status 400 in the same way, with no call made.
\<close>

theorem missing_input_rejected_before_any_call:
  "(\<not> truthy (brand req) \<or> \<not> truthy (model req) \<or> \<not> truthy (description req) \<or>
      tags req = None \<or> tags req = Some JNull \<or> files req = None \<or> files req = Some []
    \<longrightarrow> validatePost w req =
          Inr (\<lparr>status = 400,
                body = JObject [(js ''success'', JBool False),
                                (js ''error'', JString msg_missing_fields)]\<rparr>, [])) \<and>
   (reqbody = None \<or> reqbody = Some JNull
    \<longrightarrow> validateData w reqbody =
          (\<lparr>status = 400,
            body = JObject [(js ''success'', JBool False),
                            (js ''error'', JString msg_no_data)]\<rparr>, []))"
proof (intro conjI impI)
  assume a: "\<not> truthy (brand req) \<or> \<not> truthy (model req) \<or> \<not> truthy (description req) \<or>
      tags req = None \<or> tags req = Some JNull \<or> files req = None \<or> files req = Some []"
  obtain t' where t: "normalise_tags (tags req) = Inr t'"
    using normalise_tags_Inr by blast
  have "tags req = None \<or> tags req = Some JNull \<Longrightarrow> \<not> truthy t'"
    using t by (auto simp: normalise_tags_def)
  with a t show "validatePost w req =
          Inr (\<lparr>status = 400,
                body = JObject [(js ''success'', JBool False),
                                (js ''error'', JString msg_missing_fields)]\<rparr>, [])"
    by (auto simp: validatePost_def)
next
  assume "reqbody = None \<or> reqbody = Some JNull"
  then have "\<not> truthy reqbody" by auto
  then show "validateData w reqbody =
          (\<lparr>status = 400,
            body = JObject [(js ''success'', JBool False),
                            (js ''error'', JString msg_no_data)]\<rparr>, [])"
    by (simp add: validateData_def)
qed

theorem missing_input_rejected_before_any_call_witness:
  "validatePost (mockWorld (js ''{}'') True) (validPostData\<lparr>model := None\<rparr>) =
     Inr (\<lparr>status = 400,
           body = JObject [(js ''success'', JBool False),
                           (js ''error'', JString msg_missing_fields)]\<rparr>, []) \<and>
   validateData (mockWorld (js ''{}'') True) (Some JNull) =
     (\<lparr>status = 400,
       body = JObject [(js ''success'', JBool False),
                       (js ''error'', JString msg_no_data)]\<rparr>, [])"
  using missing_input_rejected_before_any_call
    [of "validPostData\<lparr>model := None\<rparr>" "mockWorld (js ''{}'') True" "Some JNull"]
  by simp

text \<open>
  C7. A negative verdict (the extracted result has a falsy \<^verbatim>\<open>success\<close>, in particular
  \<^verbatim>\<open>success: false\<close>) is mapped differently by the two flows: validatePost answers
  with status 400 and the parsed result itself as payload (and deletes the temporary
  files); validateData answers with status 200 and a payload that carries
  \<^verbatim>\<open>success: false\<close>. This holds for every such verdict, whenever the handler gets as
  far as the extraction.
\<close>

theorem negative_verdict_status_asymmetry:
  "(normalise_tags (tags req) = Inr t \<and> truthy t \<and> truthy (brand req) \<and> truthy (model req) \<and>
    description req = Some (JString d) \<and> d \<noteq> [] \<and> files req = Some images \<and> images \<noteq> [] \<and>
    upload_all w images = Inr urls \<and> complete w = Inr result \<and>
    validatePost_extract result = Inr parsed \<and>
    get_prop parsed (js ''success'') = Inr s \<and> \<not> truthy s
    \<longrightarrow> validatePost w req =
          Inr (\<lparr>status = 400, body = parsed\<rparr>,
               map (\<lambda>f. Upload (path f)) images @ [Complete] @
               map (\<lambda>f. Unlink (path f)) images)) \<and>
   (truthy reqbody \<and> complete w' = Inr content \<and>
    extractAndParseJSON (trim content) = Inr parsed' \<and>
    get_prop parsed' (js ''success'') = Inr s' \<and> \<not> truthy s'
    \<longrightarrow> validateData w' reqbody =
          (\<lparr>status = 200,
            body = JObject [(js ''success'', JBool False),
                            (js ''error'', JString msg_inappropriate)]\<rparr>, [Complete]))"
proof (intro conjI impI)
  assume a: "normalise_tags (tags req) = Inr t \<and> truthy t \<and> truthy (brand req) \<and> truthy (model req) \<and>
    description req = Some (JString d) \<and> d \<noteq> [] \<and> files req = Some images \<and> images \<noteq> [] \<and>
    upload_all w images = Inr urls \<and> complete w = Inr result \<and>
    validatePost_extract result = Inr parsed \<and>
    get_prop parsed (js ''success'') = Inr s \<and> \<not> truthy s"
  then have "validatePost_try w req =
      (Inr \<lparr>status = 400, body = parsed\<rparr>, map (\<lambda>f. Upload (path f)) images @ [Complete])"
    using validatePost_try_after_extraction[of req images w urls d result parsed s] by simp
  with a show "validatePost w req =
          Inr (\<lparr>status = 400, body = parsed\<rparr>,
               map (\<lambda>f. Upload (path f)) images @ [Complete] @
               map (\<lambda>f. Unlink (path f)) images)"
    by (simp add: validatePost_def)
next
  assume "truthy reqbody \<and> complete w' = Inr content \<and>
    extractAndParseJSON (trim content) = Inr parsed' \<and>
    get_prop parsed' (js ''success'') = Inr s' \<and> \<not> truthy s'"
  then show "validateData w' reqbody =
          (\<lparr>status = 200,
            body = JObject [(js ''success'', JBool False),
                            (js ''error'', JString msg_inappropriate)]\<rparr>, [Complete])"
    by (simp add: validateData_def validateData_try_def bind_def lift_def ret_def emit_def)
qed

theorem negative_verdict_status_asymmetry_witness:
  "validatePost (mockWorld (js ''{\"success\": false, \"acceptabilityScore\": 50}'') True) validPostData =
     Inr (\<lparr>status = 400,
           body = JObject [(js ''success'', JBool False),
                           (js ''acceptabilityScore'', JNumber 50 0)]\<rparr>,
          [Upload (js ''/tmp/upload1.jpg''), Upload (js ''/tmp/upload2.jpg''), Complete,
           Unlink (js ''/tmp/upload1.jpg''), Unlink (js ''/tmp/upload2.jpg'')]) \<and>
   validateData (mockWorld (js ''{\"success\": false}'') True) (Some (JObject [])) =
     (\<lparr>status = 200,
       body = JObject [(js ''success'', JBool False),
                       (js ''error'', JString msg_inappropriate)]\<rparr>, [Complete])"
proof -
  let ?r = "js ''{\"success\": false, \"acceptabilityScore\": 50}''"
  let ?p = "JObject [(js ''success'', JBool False), (js ''acceptabilityScore'', JNumber 50 0)]"
  let ?r' = "js ''{\"success\": false}''"
  have h1: "normalise_tags (tags validPostData) = Inr (tags validPostData)"
    by (simp add: validPostData_def normalise_tags_def)
  have h2: "truthy (tags validPostData) \<and> truthy (brand validPostData) \<and> truthy (model validPostData)"
    by (simp add: validPostData_def js_def)
  have h3: "description validPostData = Some (JString (js ''Voiture en excellent etat'')) \<and>
      js ''Voiture en excellent etat'' \<noteq> [] \<and> files validPostData = Some mockFiles \<and> mockFiles \<noteq> []"
    by (simp add: validPostData_def js_def mockFiles_def)
  have h4: "upload_all (mockWorld ?r True) mockFiles =
      Inr [js ''http://img.com/img.jpg'', js ''http://img.com/img.jpg'']"
    by (simp add: mockWorld_def mockFiles_def)
  have h5: "complete (mockWorld ?r True) = Inr ?r"
    by (simp add: mockWorld_def)
  have h6: "validatePost_extract ?r = Inr ?p"
    by code_simp
  have h7: "get_prop ?p (js ''success'') = Inr (Some (JBool False))"
    by code_simp
  have k1: "complete (mockWorld ?r' True) = Inr ?r'"
    by (simp add: mockWorld_def)
  have k2: "extractAndParseJSON (trim ?r') = Inr (JObject [(js ''success'', JBool False)])"
    by code_simp
  have k3: "get_prop (JObject [(js ''success'', JBool False)]) (js ''success'') = Inr (Some (JBool False))"
    by code_simp
  have m: "map (\<lambda>f. Upload (path f)) mockFiles @ [Complete] @ map (\<lambda>f. Unlink (path f)) mockFiles =
     [Upload (js ''/tmp/upload1.jpg''), Upload (js ''/tmp/upload2.jpg''), Complete,
           Unlink (js ''/tmp/upload1.jpg''), Unlink (js ''/tmp/upload2.jpg'')]"
    by (simp add: mockFiles_def)
  show ?thesis
    using negative_verdict_status_asymmetry
      [of validPostData "tags validPostData" "js ''Voiture en excellent etat''" mockFiles
          "mockWorld ?r True" "[js ''http://img.com/img.jpg'', js ''http://img.com/img.jpg'']"
          ?r ?p "Some (JBool False)" "Some (JObject [])" "mockWorld ?r' True" ?r'
          "JObject [(js ''success'', JBool False)]" "Some (JBool False)"]
      h1 h2 h3 h4 h5 h6 h7 k1 k2 k3 m
    by simp
qed

text \<open>
  C8. For an accepted media submission (the extracted result has a truthy
  \<^verbatim>\<open>success\<close>) whose persistence call is answered: when the answer is not ok the
  handler responds with status 500, a payload that says the validation succeeded but the
  recording failed, and the answer of the persistence service as \<^verbatim>\<open>details\<close>; when it
  is ok the handler responds with status 201 and the persisted record as \<^verbatim>\<open>post\<close>. In
  both cases the temporary files are deleted afterwards.
\<close>

theorem accepted_submission_persistence_outcome:
  "normalise_tags (tags req) = Inr t \<and> truthy t \<and> truthy (brand req) \<and> truthy (model req) \<and>
   description req = Some (JString d) \<and> d \<noteq> [] \<and> files req = Some images \<and> images \<noteq> [] \<and>
   upload_all w images = Inr urls \<and> complete w = Inr result \<and>
   validatePost_extract result = Inr parsed \<and>
   get_prop parsed (js ''success'') = Inr s \<and> truthy s \<and>
   fetch w = Inr (ok, Inr bddResult)
   \<longrightarrow> (\<exists>info. get_prop parsed (js ''info'') = Inr info \<and>
         validatePost w req =
           Inr (if ok
                then \<lparr>status = 201,
                      body = JObject [(js ''success'', JBool True),
                                      (js ''info'', js_or info (JString msg_post_created)),
                                      (js ''post'', bddResult)]\<rparr>
                else \<lparr>status = 500,
                      body = JObject [(js ''success'', JBool False),
                                      (js ''error'', JString msg_persist_failed),
                                      (js ''details'', bddResult)]\<rparr>,
                map (\<lambda>f. Upload (path f)) images @ [Complete, Persist] @
                map (\<lambda>f. Unlink (path f)) images))"
proof
  assume a: "normalise_tags (tags req) = Inr t \<and> truthy t \<and> truthy (brand req) \<and> truthy (model req) \<and>
   description req = Some (JString d) \<and> d \<noteq> [] \<and> files req = Some images \<and> images \<noteq> [] \<and>
   upload_all w images = Inr urls \<and> complete w = Inr result \<and>
   validatePost_extract result = Inr parsed \<and>
   get_prop parsed (js ''success'') = Inr s \<and> truthy s \<and>
   fetch w = Inr (ok, Inr bddResult)"
  then obtain info where i: "get_prop parsed (js ''info'') = Inr info"
    using get_prop_total[of parsed "js ''success''" s] by blast
  from a have "validatePost_try w req =
     (Inr (if ok
                then \<lparr>status = 201,
                      body = JObject [(js ''success'', JBool True),
                                      (js ''info'', js_or info (JString msg_post_created)),
                                      (js ''post'', bddResult)]\<rparr>
                else \<lparr>status = 500,
                      body = JObject [(js ''success'', JBool False),
                                      (js ''error'', JString msg_persist_failed),
                                      (js ''details'', bddResult)]\<rparr>),
      map (\<lambda>f. Upload (path f)) images @ [Complete, Persist])"
    using validatePost_try_after_extraction[of req images w urls d result parsed s] i
    by (simp add: bind_def lift_def ret_def)
  with a i show "\<exists>info. get_prop parsed (js ''info'') = Inr info \<and>
         validatePost w req =
           Inr (if ok
                then \<lparr>status = 201,
                      body = JObject [(js ''success'', JBool True),
                                      (js ''info'', js_or info (JString msg_post_created)),
                                      (js ''post'', bddResult)]\<rparr>
                else \<lparr>status = 500,
                      body = JObject [(js ''success'', JBool False),
                                      (js ''error'', JString msg_persist_failed),
                                      (js ''details'', bddResult)]\<rparr>,
                map (\<lambda>f. Upload (path f)) images @ [Complete, Persist] @
                map (\<lambda>f. Unlink (path f)) images)"
    by (simp add: validatePost_def)
qed

theorem accepted_submission_persistence_outcome_witness:
  "validatePost
     (mockWorld (js ''{\"success\": true, \"acceptabilityScore\": 85, \"info\": \"Post valide\"}'') True)
     validPostData =
     Inr (\<lparr>status = 201,
           body = JObject [(js ''success'', JBool True),
                           (js ''info'', JString (js ''Post valide'')),
                           (js ''post'', JObject [(js ''id'', JNumber 1 0)])]\<rparr>,
          map (\<lambda>f. Upload (path f)) mockFiles @ [Complete, Persist] @
          map (\<lambda>f. Unlink (path f)) mockFiles) \<and>
   validatePost
     (mockWorld (js ''{\"success\": true, \"acceptabilityScore\": 85, \"info\": \"Post valide\"}'') False)
     validPostData =
     Inr (\<lparr>status = 500,
           body = JObject [(js ''success'', JBool False),
                           (js ''error'', JString msg_persist_failed),
                           (js ''details'', JObject [(js ''id'', JNumber 1 0)])]\<rparr>,
          map (\<lambda>f. Upload (path f)) mockFiles @ [Complete, Persist] @
          map (\<lambda>f. Unlink (path f)) mockFiles)"
proof -
  let ?r = "js ''{\"success\": true, \"acceptabilityScore\": 85, \"info\": \"Post valide\"}''"
  let ?p = "JObject [(js ''success'', JBool True), (js ''acceptabilityScore'', JNumber 85 0),
                     (js ''info'', JString (js ''Post valide''))]"
  let ?urls = "[js ''http://img.com/img.jpg'', js ''http://img.com/img.jpg'']"
  let ?d = "js ''Voiture en excellent etat''"
  let ?b = "JObject [(js ''id'', JNumber 1 0)]"
  have h1: "normalise_tags (tags validPostData) = Inr (tags validPostData)"
    by (simp add: validPostData_def normalise_tags_def)
  have h2: "truthy (tags validPostData)" "truthy (brand validPostData)" "truthy (model validPostData)"
    by (simp_all add: validPostData_def js_def)
  have h3: "description validPostData = Some (JString ?d)" "?d \<noteq> []"
      "files validPostData = Some mockFiles" "mockFiles \<noteq> []"
    by (simp_all add: validPostData_def js_def mockFiles_def)
  have h4: "upload_all (mockWorld ?r ok) mockFiles = Inr ?urls" for ok
    by (simp add: mockWorld_def mockFiles_def)
  have h5: "complete (mockWorld ?r ok) = Inr ?r" for ok
    by (simp add: mockWorld_def)
  have h6: "validatePost_extract ?r = Inr ?p"
    by code_simp
  have h7: "get_prop ?p (js ''success'') = Inr (Some (JBool True))"
    by code_simp
  have h8: "truthy (Some (JBool True))"
    by simp
  have h9: "fetch (mockWorld ?r ok) = Inr (ok, Inr ?b)" for ok
    by (simp add: mockWorld_def)
  have i: "get_prop ?p (js ''info'') = Inr (Some (JString (js ''Post valide'')))"
    by code_simp
  have j: "js_or (Some (JString (js ''Post valide''))) (JString msg_post_created) = JString (js ''Post valide'')"
    by (simp add: js_or_def js_def)
  have t: "\<exists>info. get_prop ?p (js ''info'') = Inr info \<and>
         validatePost (mockWorld ?r True) validPostData =
           Inr (if True
                then \<lparr>status = 201,
                      body = JObject [(js ''success'', JBool True),
                                      (js ''info'', js_or info (JString msg_post_created)),
                                      (js ''post'', ?b)]\<rparr>
                else \<lparr>status = 500,
                      body = JObject [(js ''success'', JBool False),
                                      (js ''error'', JString msg_persist_failed),
                                      (js ''details'', ?b)]\<rparr>,
                map (\<lambda>f. Upload (path f)) mockFiles @ [Complete, Persist] @
                map (\<lambda>f. Unlink (path f)) mockFiles)"
    using accepted_submission_persistence_outcome
      [of validPostData "tags validPostData" ?d mockFiles "mockWorld ?r True" ?urls ?r ?p
          "Some (JBool True)" True ?b]
      h1 h2 h3 h4 h5 h6 h7 h8 h9 by blast
  have f: "\<exists>info. get_prop ?p (js ''info'') = Inr info \<and>
         validatePost (mockWorld ?r False) validPostData =
           Inr (if False
                then \<lparr>status = 201,
                      body = JObject [(js ''success'', JBool True),
                                      (js ''info'', js_or info (JString msg_post_created)),
                                      (js ''post'', ?b)]\<rparr>
                else \<lparr>status = 500,
                      body = JObject [(js ''success'', JBool False),
                                      (js ''error'', JString msg_persist_failed),
                                      (js ''details'', ?b)]\<rparr>,
                map (\<lambda>f. Upload (path f)) mockFiles @ [Complete, Persist] @
                map (\<lambda>f. Unlink (path f)) mockFiles)"
    using accepted_submission_persistence_outcome
      [of validPostData "tags validPostData" ?d mockFiles "mockWorld ?r False" ?urls ?r ?p
          "Some (JBool True)" False ?b]
      h1 h2 h3 h4 h5 h6 h7 h8 h9 by blast
  from t i j have "validatePost (mockWorld ?r True) validPostData =
     Inr (\<lparr>status = 201,
           body = JObject [(js ''success'', JBool True),
                           (js ''info'', JString (js ''Post valide'')),
                           (js ''post'', ?b)]\<rparr>,
          map (\<lambda>f. Upload (path f)) mockFiles @ [Complete, Persist] @
          map (\<lambda>f. Unlink (path f)) mockFiles)"
    by auto
  moreover from f have "validatePost (mockWorld ?r False) validPostData =
     Inr (\<lparr>status = 500,
           body = JObject [(js ''success'', JBool False),
                           (js ''error'', JString msg_persist_failed),
                           (js ''details'', ?b)]\<rparr>,
          map (\<lambda>f. Upload (path f)) mockFiles @ [Complete, Persist] @
          map (\<lambda>f. Unlink (path f)) mockFiles)"
    by auto
  ultimately show ?thesis by blast
qed

subsection \<open>Deletion of the temporary files\<close>

text \<open>
  Past the check of the required fields, validatePost deletes every uploaded file once,
  after everything else; identifyCar deletes its file once whenever there is one.
\<close>

lemma validatePost_try_no_unlink: "Unlink p \<notin> set (snd (validatePost_try w req))"
  by (auto simp: validatePost_try_def bind_def lift_def emit_def ret_def
      split: sum.splits prod.splits option.splits if_splits)

lemma validatePost_deletes_each_file_once_after_validation:
  assumes "normalise_tags (tags req) = Inr t" "truthy t" "truthy (brand req)" "truthy (model req)"
    "truthy (description req)" "files req = Some images" "images \<noteq> []"
  shows "\<exists>resp evs. validatePost w req = Inr (resp, evs @ map (\<lambda>f. Unlink (path f)) images) \<and>
     (\<forall>p. Unlink p \<notin> set evs)"
proof -
  obtain r evs where t: "validatePost_try w req = (r, evs)" by (cases "validatePost_try w req")
  then have "\<forall>p. Unlink p \<notin> set evs"
    using validatePost_try_no_unlink[of _ w req] by simp
  then show ?thesis
    using assms t by (simp add: validatePost_def)
qed

lemma identifyCar_deletes_file_once:
  assumes "path f \<noteq> []"
  shows "\<exists>resp evs. identifyCar w (Some f) = (resp, evs @ [Unlink (path f)]) \<and>
     (\<forall>p. Unlink p \<notin> set evs)"
  using assms
  by (auto simp: identifyCar_def bind_def lift_def emit_def ret_def
      split: sum.splits prod.splits)

section \<open>Properties of the extractors\<close>

text \<open>
  C3. The two flows match braces differently. The match of validateData
  (\<open>narrow_match\<close>) is the text from the first \<^verbatim>\<open>{\<close> to the next \<^verbatim>\<open>}\<close> after it; the
  match of validatePost (\<open>greedy_match\<close>) is the text from the first \<^verbatim>\<open>{\<close> to the last
  \<^verbatim>\<open>}\<close> of the text. When the direct parse fails, validateData parses its narrow
  match and, if there is none, falls back on the keywords; validatePost parses its
  greedy match and, if there is none, fails with an error whatever the words of the
  reply: it has no keyword fallback.
\<close>

theorem brace_matching_strategies_per_flow:
  "(narrow_match s = Some m \<longleftrightarrow>
      (\<exists>pre inner post. s = pre @ LBRACE # inner @ RBRACE # post \<and>
         LBRACE \<notin> set pre \<and> RBRACE \<notin> set inner \<and> m = LBRACE # inner @ [RBRACE])) \<and>
   (greedy_match s = Some m \<longleftrightarrow>
      (\<exists>pre inner post. s = pre @ LBRACE # inner @ RBRACE # post \<and>
         LBRACE \<notin> set pre \<and> RBRACE \<notin> set post \<and> m = LBRACE # inner @ [RBRACE])) \<and>
   (JSON_parse (clean text) = Inl e \<longrightarrow>
      extractAndParseJSON text =
        (case narrow_match (clean text) of
           Some jsonMatch \<Rightarrow> JSON_parse jsonMatch
         | None \<Rightarrow>
             if includes_js (toLowerCase (clean text)) (js ''success'') \<and>
                includes_js (toLowerCase (clean text)) (js ''true'')
             then Inr (success_object True)
             else if includes_js (toLowerCase (clean text)) (js ''success'') \<and>
                includes_js (toLowerCase (clean text)) (js ''false'')
             then Inr (success_object False)
             else Inl (Error msg_no_json))) \<and>
   (JSON_parse text = Inl e' \<longrightarrow>
      validatePost_extract text =
        (case greedy_match text of
           Some jsonMatch \<Rightarrow> JSON_parse jsonMatch
         | None \<Rightarrow> Inl (Error msg_invalid_reply)))"
proof (intro conjI impI)
  show "narrow_match s = Some m \<longleftrightarrow>
      (\<exists>pre inner post. s = pre @ LBRACE # inner @ RBRACE # post \<and>
         LBRACE \<notin> set pre \<and> RBRACE \<notin> set inner \<and> m = LBRACE # inner @ [RBRACE])"
    using narrow_match_elim[of s m] narrow_match_intro by blast
  show "greedy_match s = Some m \<longleftrightarrow>
      (\<exists>pre inner post. s = pre @ LBRACE # inner @ RBRACE # post \<and>
         LBRACE \<notin> set pre \<and> RBRACE \<notin> set post \<and> m = LBRACE # inner @ [RBRACE])"
    using greedy_match_elim[of s m] greedy_match_intro by blast
next
  assume "JSON_parse (clean text) = Inl e"
  then show "extractAndParseJSON text =
        (case narrow_match (clean text) of
           Some jsonMatch \<Rightarrow> JSON_parse jsonMatch
         | None \<Rightarrow>
             if includes_js (toLowerCase (clean text)) (js ''success'') \<and>
                includes_js (toLowerCase (clean text)) (js ''true'')
             then Inr (success_object True)
             else if includes_js (toLowerCase (clean text)) (js ''success'') \<and>
                includes_js (toLowerCase (clean text)) (js ''false'')
             then Inr (success_object False)
             else Inl (Error msg_no_json))"
    by (simp add: extractAndParseJSON_def Let_def)
next
  assume "JSON_parse text = Inl e'"
  then show "validatePost_extract text =
        (case greedy_match text of
           Some jsonMatch \<Rightarrow> JSON_parse jsonMatch
         | None \<Rightarrow> Inl (Error msg_invalid_reply))"
    by (simp add: validatePost_extract_def)
qed

theorem brace_matching_strategies_per_flow_witness:
  "narrow_match (js ''ab {c {d} e} f}'') = Some (js ''{c {d}'') \<and>
   greedy_match (js ''ab {c {d} e} f}'') = Some (js ''{c {d} e} f}'') \<and>
   extractAndParseJSON (js ''success: true'') = Inr (success_object True) \<and>
   validatePost_extract (js ''success: true'') = Inl (Error msg_invalid_reply)"
proof -
  let ?s = "js ''ab {c {d} e} f}''"
  let ?t = "js ''success: true''"
  note main = brace_matching_strategies_per_flow
  have n: "?s = js ''ab '' @ LBRACE # js ''c {d'' @ RBRACE # js '' e} f}'' \<and>
      LBRACE \<notin> set (js ''ab '') \<and> RBRACE \<notin> set (js ''c {d'') \<and>
      js ''{c {d}'' = LBRACE # js ''c {d'' @ [RBRACE]"
    by code_simp
  have g: "?s = js ''ab '' @ LBRACE # js ''c {d} e} f'' @ RBRACE # [] \<and>
      LBRACE \<notin> set (js ''ab '') \<and> RBRACE \<notin> set [] \<and>
      js ''{c {d} e} f}'' = LBRACE # js ''c {d} e} f'' @ [RBRACE]"
    by code_simp
  have p: "JSON_parse (clean ?t) = Inl SyntaxError" "JSON_parse ?t = Inl SyntaxError"
    by code_simp+
  have k: "narrow_match (clean ?t) = None" "greedy_match ?t = None"
      "includes_js (toLowerCase (clean ?t)) (js ''success'')"
      "includes_js (toLowerCase (clean ?t)) (js ''true'')"
    by code_simp+
  have "narrow_match ?s = Some (js ''{c {d}'')"
    using main[of ?s "js ''{c {d}''", THEN conjunct1] n by blast
  moreover have "greedy_match ?s = Some (js ''{c {d} e} f}'')"
    using main[of ?s "js ''{c {d} e} f}''", THEN conjunct2, THEN conjunct1] g by blast
  moreover have "extractAndParseJSON ?t = Inr (success_object True)"
    using main[of _ _ ?t SyntaxError, THEN conjunct2, THEN conjunct2, THEN conjunct1] p(1) k
    by simp
  moreover have "validatePost_extract ?t = Inl (Error msg_invalid_reply)"
    using main[of _ _ ?t _ SyntaxError, THEN conjunct2, THEN conjunct2, THEN conjunct2] p(2) k
    by simp
  ultimately show ?thesis by blast
qed

text \<open>
  C1, at the reply \<^verbatim>\<open>{success: true}\<close> (a key without quotes). The direct parse fails,
  the narrow match finds the whole text, and the parse of that match fails too. The
  cleaned text contains both \<^verbatim>\<open>success\<close> and \<^verbatim>\<open>true\<close>, but the keyword step is not
  reached: the second \<^verbatim>\<open>JSON.parse\<close> stands unguarded in the \<^verbatim>\<open>catch\<close> block, its
  SyntaxError leaves \<^verbatim>\<open>extractAndParseJSON\<close>, and validateData answers with status 500.
\<close>

theorem substring_parse_failure_aborts:
  "JSON_parse (clean (js ''{success: true}'')) = Inl SyntaxError \<and>
   narrow_match (clean (js ''{success: true}'')) = Some (js ''{success: true}'') \<and>
   JSON_parse (js ''{success: true}'') = Inl SyntaxError \<and>
   includes_js (toLowerCase (clean (js ''{success: true}''))) (js ''success'') \<and>
   includes_js (toLowerCase (clean (js ''{success: true}''))) (js ''true'') \<and>
   extractAndParseJSON (js ''{success: true}'') = Inl SyntaxError \<and>
   validateData (mockWorld (js ''{success: true}'') True) (Some (JObject [])) =
     (\<lparr>status = 500,
       body = JObject [(js ''success'', JBool False),
                       (js ''error'', JString msg_validation_error),
                       (js ''details'', JString (js ''Unexpected token''))]\<rparr>, [Complete])"
  by code_simp

text \<open>
  C6, as stated, fails. The extractor of validateData produces \<^verbatim>\<open>{success: true}\<close> from
  the reply \<^verbatim>\<open>success: true\<close>, in which nothing parses and no brace is found; and the
  direct parse of the reply \<^verbatim>\<open>42\<close> gives validatePost and identifyCar a result that
  is a number, not an object.
\<close>

theorem result_without_object_parse_counterexample:
  "JSON_parse (clean (js ''success: true'')) = Inl SyntaxError \<and>
   narrow_match (clean (js ''success: true'')) = None \<and>
   extractAndParseJSON (js ''success: true'') = Inr (success_object True) \<and>
   validatePost_extract (js ''42'') = Inr (JNumber 42 0) \<and>
   identify_reply (js ''42'') = \<lparr>status = 200, body = JNumber 42 0\<rparr>"
  by code_simp

text \<open>
  C6, amended. A result is produced in these ways only: by \<^verbatim>\<open>JSON.parse\<close> of the whole
  reply (cleaned, in validateData), whatever JSON value that gives; when that fails, by
  \<^verbatim>\<open>JSON.parse\<close> of the brace match; and, in validateData only, when the direct parse
  fails and there is no brace match, by the keywords \<^verbatim>\<open>success\<close> with \<^verbatim>\<open>true\<close> or
  \<^verbatim>\<open>false\<close>. identifyCar answers 200 with exactly the results of the validatePost
  extraction and 500 otherwise. When the extraction fails the request ends there: both
  validatePost and validateData answer with status 500 after the one call to the
  completion service.
\<close>

theorem extraction_result_provenance:
  "(validatePost_extract reply = Inr v \<longleftrightarrow>
      JSON_parse reply = Inr v \<or>
      (\<exists>e. JSON_parse reply = Inl e) \<and>
      (\<exists>m. greedy_match reply = Some m \<and> JSON_parse m = Inr v)) \<and>
   (identify_reply reply = \<lparr>status = 200, body = v\<rparr> \<longleftrightarrow> validatePost_extract reply = Inr v) \<and>
   ((\<forall>v. validatePost_extract reply \<noteq> Inr v) \<longrightarrow> status (identify_reply reply) = 500) \<and>
   (extractAndParseJSON reply = Inr v \<longleftrightarrow>
      JSON_parse (clean reply) = Inr v \<or>
      (\<exists>e. JSON_parse (clean reply) = Inl e) \<and>
      ((\<exists>m. narrow_match (clean reply) = Some m \<and> JSON_parse m = Inr v) \<or>
       narrow_match (clean reply) = None \<and>
       includes_js (toLowerCase (clean reply)) (js ''success'') \<and>
       (includes_js (toLowerCase (clean reply)) (js ''true'') \<and> v = success_object True \<or>
        \<not> includes_js (toLowerCase (clean reply)) (js ''true'') \<and>
        includes_js (toLowerCase (clean reply)) (js ''false'') \<and> v = success_object False))) \<and>
   (files req = Some images \<and> truthy (brand req) \<and> truthy (model req) \<and>
    normalise_tags (tags req) = Inr t \<and> truthy t \<and> images \<noteq> [] \<and>
    upload_all w images = Inr urls \<and> description req = Some (JString d) \<and> d \<noteq> [] \<and>
    complete w = Inr reply \<and> validatePost_extract reply = Inl err
    \<longrightarrow> validatePost w req =
          Inr (\<lparr>status = 500,
                body = JObject [(js ''success'', JBool False),
                                (js ''error'', JString msg_server_error),
                                (js ''message'', JString (message w err))]\<rparr>,
               map (\<lambda>f. Upload (path f)) images @ [Complete] @
               map (\<lambda>f. Unlink (path f)) images)) \<and>
   (truthy reqbody \<and> complete w' = Inr content \<and> extractAndParseJSON (trim content) = Inl err'
    \<longrightarrow> validateData w' reqbody =
          (\<lparr>status = 500,
            body = JObject [(js ''success'', JBool False),
                            (js ''error'', JString msg_validation_error),
                            (js ''details'', JString (message w' err'))]\<rparr>, [Complete]))"
proof (intro conjI)
  show "validatePost_extract reply = Inr v \<longleftrightarrow>
      JSON_parse reply = Inr v \<or>
      (\<exists>e. JSON_parse reply = Inl e) \<and>
      (\<exists>m. greedy_match reply = Some m \<and> JSON_parse m = Inr v)"
    by (auto simp: validatePost_extract_def split: sum.splits option.splits)
  show "identify_reply reply = \<lparr>status = 200, body = v\<rparr> \<longleftrightarrow> validatePost_extract reply = Inr v"
    by (auto simp: identify_reply_def validatePost_extract_def split: sum.splits option.splits)
  show "(\<forall>v. validatePost_extract reply \<noteq> Inr v) \<longrightarrow> status (identify_reply reply) = 500"
    by (auto simp: identify_reply_def validatePost_extract_def split: sum.splits option.splits)
  show "extractAndParseJSON reply = Inr v \<longleftrightarrow>
      JSON_parse (clean reply) = Inr v \<or>
      (\<exists>e. JSON_parse (clean reply) = Inl e) \<and>
      ((\<exists>m. narrow_match (clean reply) = Some m \<and> JSON_parse m = Inr v) \<or>
       narrow_match (clean reply) = None \<and>
       includes_js (toLowerCase (clean reply)) (js ''success'') \<and>
       (includes_js (toLowerCase (clean reply)) (js ''true'') \<and> v = success_object True \<or>
        \<not> includes_js (toLowerCase (clean reply)) (js ''true'') \<and>
        includes_js (toLowerCase (clean reply)) (js ''false'') \<and> v = success_object False))"
    by (auto simp: extractAndParseJSON_def Let_def split: sum.splits option.splits)
  show "files req = Some images \<and> truthy (brand req) \<and> truthy (model req) \<and>
    normalise_tags (tags req) = Inr t \<and> truthy t \<and> images \<noteq> [] \<and>
    upload_all w images = Inr urls \<and> description req = Some (JString d) \<and> d \<noteq> [] \<and>
    complete w = Inr reply \<and> validatePost_extract reply = Inl err
    \<longrightarrow> validatePost w req =
          Inr (\<lparr>status = 500,
                body = JObject [(js ''success'', JBool False),
                                (js ''error'', JString msg_server_error),
                                (js ''message'', JString (message w err))]\<rparr>,
               map (\<lambda>f. Upload (path f)) images @ [Complete] @
               map (\<lambda>f. Unlink (path f)) images)"
    by (simp add: validatePost_def validatePost_try_def bind_def lift_def emit_def ret_def)
  show "truthy reqbody \<and> complete w' = Inr content \<and> extractAndParseJSON (trim content) = Inl err'
    \<longrightarrow> validateData w' reqbody =
          (\<lparr>status = 500,
            body = JObject [(js ''success'', JBool False),
                            (js ''error'', JString msg_validation_error),
                            (js ''details'', JString (message w' err'))]\<rparr>, [Complete])"
    by (simp add: validateData_def validateData_try_def bind_def lift_def emit_def ret_def)
qed

theorem extraction_result_provenance_witness:
  "validatePost_extract (js ''voila {\"success\": false}'') = Inr (success_object False) \<and>
   extractAndParseJSON (js ''Success: FALSE'') = Inr (success_object False) \<and>
   validatePost (mockWorld (js ''Aucun JSON ici du tout'') True) validPostData =
     Inr (\<lparr>status = 500,
           body = JObject [(js ''success'', JBool False),
                           (js ''error'', JString msg_server_error),
                           (js ''message'', JString msg_invalid_reply)]\<rparr>,
          map (\<lambda>f. Upload (path f)) mockFiles @ [Complete] @
          map (\<lambda>f. Unlink (path f)) mockFiles) \<and>
   validateData (mockWorld (js ''Aucun JSON ici'') True) (Some (JObject [])) =
     (\<lparr>status = 500,
       body = JObject [(js ''success'', JBool False),
                       (js ''error'', JString msg_validation_error),
                       (js ''details'', JString msg_no_json)]\<rparr>, [Complete])"
proof -
  let ?t = "js ''voila {\"success\": false}''"
  let ?u = "js ''Success: FALSE''"
  let ?r = "js ''Aucun JSON ici du tout''"
  let ?r' = "js ''Aucun JSON ici''"
  let ?urls = "[js ''http://img.com/img.jpg'', js ''http://img.com/img.jpg'']"
  let ?d = "js ''Voiture en excellent etat''"
  note rl = extraction_result_provenance
  have a: "JSON_parse ?t = Inl SyntaxError" "greedy_match ?t = Some (js ''{\"success\": false}'')"
      "JSON_parse (js ''{\"success\": false}'') = Inr (success_object False)"
    by code_simp+
  have b: "JSON_parse (clean ?u) = Inl SyntaxError" "narrow_match (clean ?u) = None"
      "includes_js (toLowerCase (clean ?u)) (js ''success'')"
      "\<not> includes_js (toLowerCase (clean ?u)) (js ''true'')"
      "includes_js (toLowerCase (clean ?u)) (js ''false'')"
    by code_simp+
  have h1: "normalise_tags (tags validPostData) = Inr (tags validPostData)"
    by (simp add: validPostData_def normalise_tags_def)
  have h2: "truthy (tags validPostData)" "truthy (brand validPostData)" "truthy (model validPostData)"
    by (simp_all add: validPostData_def js_def)
  have h3: "description validPostData = Some (JString ?d)" "?d \<noteq> []"
      "files validPostData = Some mockFiles" "mockFiles \<noteq> []"
    by (simp_all add: validPostData_def js_def mockFiles_def)
  have h4: "upload_all (mockWorld ?r True) mockFiles = Inr ?urls"
    by (simp add: mockWorld_def mockFiles_def)
  have h5: "complete (mockWorld ?r True) = Inr ?r" "complete (mockWorld ?r' True) = Inr ?r'"
    by (simp_all add: mockWorld_def)
  have h6: "validatePost_extract ?r = Inl (Error msg_invalid_reply)"
      "extractAndParseJSON (trim ?r') = Inl (Error msg_no_json)"
    by code_simp+
  have h7: "message (mockWorld ?r True) (Error msg_invalid_reply) = msg_invalid_reply"
      "message (mockWorld ?r' True) (Error msg_no_json) = msg_no_json"
      "truthy (Some (JObject []))"
    by simp_all
  have "validatePost_extract ?t = Inr (success_object False)"
    using rl[where reply = ?t and v = "success_object False", THEN conjunct1] a by blast
  moreover have "extractAndParseJSON ?u = Inr (success_object False)"
    using rl[where reply = ?u and v = "success_object False", THEN conjunct2, THEN conjunct2,
        THEN conjunct2, THEN conjunct1] b by blast
  moreover have "validatePost (mockWorld ?r True) validPostData =
     Inr (\<lparr>status = 500,
           body = JObject [(js ''success'', JBool False),
                           (js ''error'', JString msg_server_error),
                           (js ''message'', JString msg_invalid_reply)]\<rparr>,
          map (\<lambda>f. Upload (path f)) mockFiles @ [Complete] @
          map (\<lambda>f. Unlink (path f)) mockFiles)"
    using rl[where reply = ?r and req = validPostData and images = mockFiles and
        t = "tags validPostData" and w = "mockWorld ?r True" and urls = ?urls and d = ?d and
        err = "Error msg_invalid_reply", THEN conjunct2, THEN conjunct2, THEN conjunct2,
        THEN conjunct2, THEN conjunct1] h1 h2 h3 h4 h5 h6 h7 by simp
  moreover have "validateData (mockWorld ?r' True) (Some (JObject [])) =
     (\<lparr>status = 500,
       body = JObject [(js ''success'', JBool False),
                       (js ''error'', JString msg_validation_error),
                       (js ''details'', JString msg_no_json)]\<rparr>, [Complete])"
    using rl[where reqbody = "Some (JObject [])" and w' = "mockWorld ?r' True" and
        content = ?r' and err' = "Error msg_no_json", THEN conjunct2, THEN conjunct2,
        THEN conjunct2, THEN conjunct2, THEN conjunct2]
      h5 h6 h7 by simp
  ultimately show ?thesis by blast
qed

text \<open>
  C4, as stated, fails. The reply \<^verbatim>\<open>success: false, not true\<close> has no brace and does not
  parse; it contains \<^verbatim>\<open>success\<close> and \<^verbatim>\<open>false\<close>, yet the result is
  \<^verbatim>\<open>{success: true}\<close>, because \<^verbatim>\<open>true\<close> is looked up first. And the reply
  \<^verbatim>\<open>"success: true"\<close>, quotes included, has no brace and contains both words, but it is a
  JSON string, so the direct parse succeeds and the result is that string.
\<close>

theorem keyword_heuristic_counterexample:
  "JSON_parse (clean (js ''success: false, not true'')) = Inl SyntaxError \<and>
   narrow_match (clean (js ''success: false, not true'')) = None \<and>
   includes_js (toLowerCase (clean (js ''success: false, not true''))) (js ''success'') \<and>
   includes_js (toLowerCase (clean (js ''success: false, not true''))) (js ''false'') \<and>
   extractAndParseJSON (js ''success: false, not true'') = Inr (success_object True) \<and>
   extractAndParseJSON (js ''success: false, not true'') \<noteq> Inr (success_object False) \<and>
   narrow_match (clean (js ''\"success: true\"'')) = None \<and>
   includes_js (toLowerCase (clean (js ''\"success: true\"''))) (js ''success'') \<and>
   includes_js (toLowerCase (clean (js ''\"success: true\"''))) (js ''true'') \<and>
   extractAndParseJSON (js ''\"success: true\"'') = Inr (JString (js ''success: true'')) \<and>
   extractAndParseJSON (js ''\"success: true\"'') \<noteq> Inr (success_object True)"
  by code_simp

text \<open>
  C4, amended. For every reply whose cleaned text fails the direct parse and contains no
  \<^verbatim>\<open>{\<close> followed by a \<^verbatim>\<open>}\<close>, the extractor of validateData gives \<^verbatim>\<open>{success: true}\<close>
  when the text contains, whatever the case of the letters, \<^verbatim>\<open>success\<close> and \<^verbatim>\<open>true\<close>;
  and \<^verbatim>\<open>{success: false}\<close> when it contains \<^verbatim>\<open>success\<close> and \<^verbatim>\<open>false\<close> but not
  \<^verbatim>\<open>true\<close>.
\<close>

theorem keyword_heuristic_recovers_flag:
  "JSON_parse (clean reply) = Inl e \<and>
   \<not> (\<exists>pre inner post. clean reply = pre @ LBRACE # inner @ RBRACE # post)
   \<longrightarrow> (includes_js (toLowerCase (clean reply)) (js ''success'') \<and>
        includes_js (toLowerCase (clean reply)) (js ''true'')
        \<longrightarrow> extractAndParseJSON reply = Inr (success_object True)) \<and>
       (includes_js (toLowerCase (clean reply)) (js ''success'') \<and>
        includes_js (toLowerCase (clean reply)) (js ''false'') \<and>
        \<not> includes_js (toLowerCase (clean reply)) (js ''true'')
        \<longrightarrow> extractAndParseJSON reply = Inr (success_object False))"
proof
  assume a: "JSON_parse (clean reply) = Inl e \<and>
   \<not> (\<exists>pre inner post. clean reply = pre @ LBRACE # inner @ RBRACE # post)"
  then have "narrow_match (clean reply) = None"
    using narrow_match_None by blast
  with a show "(includes_js (toLowerCase (clean reply)) (js ''success'') \<and>
        includes_js (toLowerCase (clean reply)) (js ''true'')
        \<longrightarrow> extractAndParseJSON reply = Inr (success_object True)) \<and>
       (includes_js (toLowerCase (clean reply)) (js ''success'') \<and>
        includes_js (toLowerCase (clean reply)) (js ''false'') \<and>
        \<not> includes_js (toLowerCase (clean reply)) (js ''true'')
        \<longrightarrow> extractAndParseJSON reply = Inr (success_object False))"
    by (simp add: extractAndParseJSON_def Let_def)
qed

theorem keyword_heuristic_recovers_flag_witness:
  "extractAndParseJSON (js ''The answer is SUCCESS = True'') = Inr (success_object True) \<and>
   extractAndParseJSON (js ''```success: False```'') = Inr (success_object False)"
proof -
  let ?a = "js ''The answer is SUCCESS = True''"
  let ?b = "js ''```success: False```''"
  note rl = keyword_heuristic_recovers_flag
  have p: "JSON_parse (clean ?a) = Inl SyntaxError" "JSON_parse (clean ?b) = Inl SyntaxError"
    by code_simp+
  have n: "narrow_match (clean ?a) = None" "narrow_match (clean ?b) = None"
    by code_simp+
  have k: "includes_js (toLowerCase (clean ?a)) (js ''success'')"
      "includes_js (toLowerCase (clean ?a)) (js ''true'')"
      "includes_js (toLowerCase (clean ?b)) (js ''success'')"
      "includes_js (toLowerCase (clean ?b)) (js ''false'')"
      "\<not> includes_js (toLowerCase (clean ?b)) (js ''true'')"
    by code_simp+
  have "extractAndParseJSON ?a = Inr (success_object True)"
    using rl[where reply = ?a and e = SyntaxError] p(1) n(1) k narrow_match_None by blast
  moreover have "extractAndParseJSON ?b = Inr (success_object False)"
    using rl[where reply = ?b and e = SyntaxError] p(2) n(2) k narrow_match_None by blast
  ultimately show ?thesis by blast
qed

section \<open>Deletion of the temporary files on the rejection path\<close>

text \<open>
  C2, at a submission with two uploaded files and no \<^verbatim>\<open>brand\<close>. validatePost answers
  with status 400 from the check of the required fields, which stands before the
  \<^verbatim>\<open>try\<close> block; its \<^verbatim>\<open>finally\<close> is never entered and no file is deleted.
\<close>

theorem validation_rejection_skips_cleanup:
  "files (validPostData\<lparr>brand := None\<rparr>) = Some mockFiles \<and>
   validatePost (mockWorld (js ''{}'') True) (validPostData\<lparr>brand := None\<rparr>) =
     Inr (\<lparr>status = 400,
           body = JObject [(js ''success'', JBool False),
                           (js ''error'', JString msg_missing_fields)]\<rparr>, [])"
  by code_simp

theorem validation_rejection_skips_cleanup_witness:
  "\<exists>resp evs.
     validatePost (mockWorld (js ''{}'') True) (validPostData\<lparr>brand := None\<rparr>) = Inr (resp, evs) \<and>
     status resp = 400 \<and> evs = []"
  using validation_rejection_skips_cleanup by simp

section \<open>Cleaning, trimming and splitting\<close>







lemma split_comma_nonempty: "split_comma s \<noteq> []"
  by (induction s) (auto split: list.splits)

lemma join_comma_Cons: "join_comma ((c # t) # ts) = c # join_comma (t # ts)"
  by (cases ts) simp_all

lemma join_comma_split_comma: "join_comma (split_comma s) = s"
proof (induction s)
  case Nil
  then show ?case by simp
next
  case (Cons c cs)
  obtain t ts where ts: "split_comma cs = t # ts"
    using split_comma_nonempty[of cs] by (cases "split_comma cs") auto
  show ?case
  proof (cases "c = cu CHR '',''")
    case True
    with Cons ts show ?thesis by simp
  next
    case False
    with Cons ts show ?thesis by (simp add: join_comma_Cons)
  qed
qed

lemma split_comma_no_comma: "t \<in> set (split_comma s) \<Longrightarrow> cu CHR '','' \<notin> set t"
proof (induction s arbitrary: t)
  case Nil
  then show ?case by simp
next
  case (Cons c cs)
  obtain u us where us: "split_comma cs = u # us"
    using split_comma_nonempty[of cs] by (cases "split_comma cs") auto
  show ?case
  proof (cases "c = cu CHR '',''")
    case True
    with Cons.prems Cons.IH show ?thesis by auto
  next
    case False
    with Cons.prems us have "t = c # u \<or> t \<in> set us" by simp
    moreover have "cu CHR '','' \<notin> set u" using Cons.IH[of u] us by simp
    moreover have "t \<in> set us \<Longrightarrow> cu CHR '','' \<notin> set t" using Cons.IH[of t] us by simp
    ultimately show ?thesis using False by auto
  qed
qed

lemma trim_decomposition:
  "\<exists>a b. t = a @ trim t @ b \<and> (\<forall>c\<in>set a. is_space c) \<and> (\<forall>c\<in>set b. is_space c)"
proof -
  let ?u = "dropWhile is_space t"
  let ?a = "takeWhile is_space t"
  let ?b = "rev (takeWhile is_space (rev ?u))"
  have "trim t @ ?b = rev (takeWhile is_space (rev ?u) @ dropWhile is_space (rev ?u))"
    unfolding trim_def by (simp only: rev_append)
  also have "\<dots> = rev (rev ?u)"
    by (simp only: takeWhile_dropWhile_id)
  finally have u: "?u = trim t @ ?b"
    by simp
  have "t = ?a @ ?u" by simp
  with u have "t = ?a @ trim t @ ?b" by simp
  moreover have "\<forall>c\<in>set ?a. is_space c" using set_takeWhileD by fastforce
  moreover have "\<forall>c\<in>set ?b. is_space c" using set_takeWhileD by fastforce
  ultimately show ?thesis by blast
qed

lemma trim_ends:
  assumes "trim t \<noteq> []"
  shows "\<not> is_space (hd (trim t)) \<and> \<not> is_space (last (trim t))"
proof -
  let ?u = "dropWhile is_space t"
  let ?w = "dropWhile is_space (rev ?u)"
  have tr: "trim t = rev ?w" by (simp only: trim_def)
  have w: "?w \<noteq> []" using assms unfolding tr by (simp only: rev_is_Nil_conv not_False_eq_True)
  have u: "?u \<noteq> []"
  proof
    assume "?u = []"
    then have "?w = []" by (simp only: rev.simps dropWhile.simps)
    with w show False by blast
  qed
  have "last (trim t) = hd ?w" unfolding tr by (rule last_rev)
  moreover have "\<not> is_space (hd ?w)" using w by (rule hd_dropWhile)
  moreover have "hd (trim t) = last ?w" unfolding tr by (rule hd_rev)
  moreover have "last ?w = last (rev ?u)"
  proof -
    have "rev ?u = takeWhile is_space (rev ?u) @ ?w" by (simp only: takeWhile_dropWhile_id)
    then have "last (rev ?u) = last (takeWhile is_space (rev ?u) @ ?w)" by (rule arg_cong)
    also have "\<dots> = last ?w" using w by (rule last_appendR)
    finally show ?thesis by (rule sym)
  qed
  moreover have "last (rev ?u) = hd ?u" by (rule last_rev)
  moreover have "\<not> is_space (hd ?u)" using u by (rule hd_dropWhile)
  ultimately show ?thesis by (simp only: simp_thms)
qed

subsection \<open>Cleaning around a brace\<close>











section \<open>Prose around the object, and the tags\<close>




text \<open>
  C10. The parsing of a string-valued \<^verbatim>\<open>tags\<close> never throws: the tag step of
  validatePost (\<open>normalise_tags\<close>) applies \<open>parse_tags\<close> to a string and leaves any
  other value as it is, \<open>parse_tags\<close> always yields a value, and the handler itself
  never throws. When the string is valid JSON the tags become the parsed value, for a
  valid JSON array that array; when the string is not valid JSON the tags become the list
  of its pieces between the commas, in order (joined again with commas they give the
  string back, and no piece holds a comma), each trimmed: white space is removed at both
  ends of the piece and nothing else is.
\<close>

theorem tag_parsing_never_throws:
  "(\<exists>v. parse_tags s = Inr v) \<and>
   normalise_tags (Some (JString s)) = map_sum id Some (parse_tags s) \<and>
   ((\<forall>s'. t \<noteq> Some (JString s')) \<longrightarrow> normalise_tags t = Inr t) \<and>
   (\<exists>out. validatePost w req = Inr out) \<and>
   (JSON_parse s = Inr v \<longrightarrow>
      parse_tags s = Inr v \<and> normalise_tags (Some (JString s)) = Inr (Some v)) \<and>
   (JSON_parse s = Inr (JArray xs) \<longrightarrow>
      parse_tags s = Inr (JArray xs) \<and>
      normalise_tags (Some (JString s)) = Inr (Some (JArray xs))) \<and>
   (JSON_parse s = Inl e \<longrightarrow>
      parse_tags s = Inr (JArray (map (\<lambda>t. JString (trim t)) (split_comma s))) \<and>
      normalise_tags (Some (JString s)) =
        Inr (Some (JArray (map (\<lambda>t. JString (trim t)) (split_comma s))))) \<and>
   join_comma (split_comma s) = s \<and>
   (\<forall>t\<in>set (split_comma s). cu CHR '','' \<notin> set t) \<and>
   (\<forall>t. \<exists>a b. t = a @ trim t @ b \<and> (\<forall>c\<in>set a. is_space c) \<and> (\<forall>c\<in>set b. is_space c)) \<and>
   (\<forall>t. trim t \<noteq> [] \<longrightarrow> \<not> is_space (hd (trim t)) \<and> \<not> is_space (last (trim t)))"
proof (intro conjI impI allI ballI)
  show "\<exists>v. parse_tags s = Inr v" by (rule parse_tags_Inr)
  show "normalise_tags (Some (JString s)) = map_sum id Some (parse_tags s)"
    by (simp add: normalise_tags_def)
  show "\<exists>out. validatePost w req = Inr out"
  proof -
    obtain t' where "normalise_tags (tags req) = Inr t'"
      using normalise_tags_Inr by blast
    then show ?thesis
      by (simp add: validatePost_def split: prod.splits)
  qed
  show "join_comma (split_comma s) = s" by (rule join_comma_split_comma)
  show "cu CHR '','' \<notin> set u" if "u \<in> set (split_comma s)" for u
    using that by (rule split_comma_no_comma)
  show "\<exists>a b. u = a @ trim u @ b \<and> (\<forall>c\<in>set a. is_space c) \<and> (\<forall>c\<in>set b. is_space c)" for u
    by (rule trim_decomposition)
  show "\<not> is_space (hd (trim u))" if "trim u \<noteq> []" for u
    using trim_ends[OF that] by blast
  show "\<not> is_space (last (trim u))" if "trim u \<noteq> []" for u
    using trim_ends[OF that] by blast
next
  assume "\<forall>s'. t \<noteq> Some (JString s')"
  then show "normalise_tags t = Inr t"
    by (auto simp: normalise_tags_def split: option.splits json.splits)
next
  assume "JSON_parse s = Inr v"
  then show "parse_tags s = Inr v" "normalise_tags (Some (JString s)) = Inr (Some v)"
    by (simp_all add: parse_tags_def normalise_tags_def)
next
  assume "JSON_parse s = Inr (JArray xs)"
  then show "parse_tags s = Inr (JArray xs)"
    "normalise_tags (Some (JString s)) = Inr (Some (JArray xs))"
    by (simp_all add: parse_tags_def normalise_tags_def)
next
  assume "JSON_parse s = Inl e"
  then show "parse_tags s = Inr (JArray (map (\<lambda>t. JString (trim t)) (split_comma s)))"
    "normalise_tags (Some (JString s)) =
        Inr (Some (JArray (map (\<lambda>t. JString (trim t)) (split_comma s))))"
    by (simp_all add: parse_tags_def normalise_tags_def)
qed

theorem tag_parsing_never_throws_witness:
  "normalise_tags (Some (JString (js ''[\"berline\",\"fiable\"]''))) =
     Inr (Some (JArray [JString (js ''berline''), JString (js ''fiable'')])) \<and>
   normalise_tags (Some (JString (js ''berline, fiable ,rapide''))) =
     Inr (Some (JArray [JString (js ''berline''), JString (js ''fiable''),
                        JString (js ''rapide'')])) \<and>
   normalise_tags (Some (JArray [JString (js ''berline'')])) =
     Inr (Some (JArray [JString (js ''berline'')])) \<and>
   parse_tags (js ''[\"berline\",\"fiable\"]'') =
     Inr (JArray [JString (js ''berline''), JString (js ''fiable'')]) \<and>
   parse_tags (js ''berline, fiable ,rapide'') =
     Inr (JArray [JString (js ''berline''), JString (js ''fiable''), JString (js ''rapide'')]) \<and>
   join_comma (split_comma (js ''berline, fiable ,rapide'')) = js ''berline, fiable ,rapide'' \<and>
   \<not> is_space (hd (trim (js '' fiable ''))) \<and> \<not> is_space (last (trim (js '' fiable '')))"
proof -
  let ?a = "js ''[\"berline\",\"fiable\"]''"
  let ?b = "js ''berline, fiable ,rapide''"
  let ?c = "Some (JArray [JString (js ''berline'')])"
  note ra = tag_parsing_never_throws
    [where s = ?a and xs = "[JString (js ''berline''), JString (js ''fiable'')]"]
  note rb = tag_parsing_never_throws[where s = ?b and e = SyntaxError]
  note rc = tag_parsing_never_throws[where t = ?c]
  have h1: "JSON_parse ?a = Inr (JArray [JString (js ''berline''), JString (js ''fiable'')])"
    by code_simp
  have h2: "JSON_parse ?b = Inl SyntaxError"
    by code_simp
  have h3: "map (\<lambda>t. JString (trim t)) (split_comma ?b) =
      [JString (js ''berline''), JString (js ''fiable''), JString (js ''rapide'')]"
    by code_simp
  have h4: "trim (js '' fiable '') \<noteq> []"
    by code_simp
  have h5: "\<forall>s'. ?c \<noteq> Some (JString s')"
    by simp
  have "parse_tags ?a = Inr (JArray [JString (js ''berline''), JString (js ''fiable'')]) \<and>
      normalise_tags (Some (JString ?a)) =
        Inr (Some (JArray [JString (js ''berline''), JString (js ''fiable'')]))"
    using ra h1 by blast
  moreover have "parse_tags ?b =
     Inr (JArray [JString (js ''berline''), JString (js ''fiable''), JString (js ''rapide'')]) \<and>
     normalise_tags (Some (JString ?b)) =
     Inr (Some (JArray [JString (js ''berline''), JString (js ''fiable''),
                        JString (js ''rapide'')]))"
    using rb h2 h3 by simp
  moreover have "normalise_tags ?c = Inr ?c"
    using rc h5 by blast
  moreover have "join_comma (split_comma ?b) = ?b"
    using rb by blast
  moreover have "\<not> is_space (hd (trim (js '' fiable ''))) \<and> \<not> is_space (last (trim (js '' fiable '')))"
    using rb h4 by blast
  ultimately show ?thesis by blast
qed

end
